theory Spec2Isabelle
  imports Main
begin

section \<open>Python values handed to the stores\<close>

text \<open>
  The operator commands pass whatever the argument parser produced: a string, a number
  (a resolved chat id, an entity id) or \<open>None\<close> (an invite link that did not resolve).
  The stores coerce with \<open>str(item)\<close>.
\<close>

datatype pyval = PNone | PInt int | PStr string

fun str_nat :: "nat \<Rightarrow> string" where
  "str_nat n = (if n < 10 then [''0123456789'' ! n]
                else str_nat (n div 10) @ [''0123456789'' ! (n mod 10)])"

declare str_nat.simps [simp del]

definition str_int :: "int \<Rightarrow> string" where
  "str_int i = (if i < 0 then CHR ''-'' # str_nat (nat (- i)) else str_nat (nat i))"

text \<open>Python's \<open>str(x)\<close> on the three kinds of value.\<close>

fun py_str :: "pyval \<Rightarrow> string" where
  "py_str PNone = ''None''"
| "py_str (PInt i) = str_int i"
| "py_str (PStr s) = s"

section \<open>The denylist tables (database/postgres.py, class AutobahnBlacklist)\<close>

text \<open>
  One table \<open>blacklists.<name>\<close> per subclass of \<open>AutobahnBlacklist\<close>. The columns the
  statements read and write are \<open>id\<close>, \<open>item\<close> and \<open>retired\<close>; \<open>item\<close> always receives
  \<open>str(item)\<close>, so the column holds text.
\<close>

datatype category = Bio | String | Channel | Domain | File | MHash

fun name :: "category \<Rightarrow> string" where
  "name Bio = ''bio''"
| "name String = ''string''"
| "name Channel = ''channel''"
| "name Domain = ''domain''"
| "name File = ''file''"
| "name MHash = ''mhash''"

fun hex_type :: "category \<Rightarrow> string" where
  "hex_type Bio = ''0x0''"
| "hex_type String = ''0x1''"
| "hex_type Channel = ''0x3''"
| "hex_type Domain = ''0x4''"
| "hex_type File = ''0x5''"
| "hex_type MHash = ''0x6''"

record bl_row =
  row_id :: int
  row_item :: string
  row_retired :: bool

text \<open>
  Modelled from the spec: the table declarations (the schema) are not among the sources.
  The spec's data model gives \<open>index: monotonic integer (unique per category, assigned by
  the store)\<close> and a new row \<open>retired=false\<close>; the \<open>INSERT\<close> of \<open>add\<close> names only the
  \<open>item\<close> column and reads the assigned \<open>id\<close> back. The table therefore carries the
  counter of its identity column: \<open>last_value\<close> is the last index handed out, the next
  insert receives \<open>last_value + 1\<close>, and a row starts with \<open>retired = False\<close>.
\<close>

record bl_table =
  rows :: "bl_row list"
  last_value :: int

definition empty_table :: bl_table where
  "empty_table = \<lparr>rows = [], last_value = 0\<rparr>"

text \<open>The record type of database/types.py: \<open>BlacklistItem(index, value, retired)\<close>.\<close>

datatype BlacklistItem = BlacklistItem (index: int) (val: pyval) (retired: bool)

text \<open>
  \<open>fetchrow\<close> returns the first row of the statement's result. The list \<open>rows\<close> is the
  table in the order in which the server returns its rows.
\<close>

definition fetchrow :: "(bl_row \<Rightarrow> bool) \<Rightarrow> bl_table \<Rightarrow> bl_row option" where
  "fetchrow P t = find P (rows t)"

text \<open>
  \<open>add\<close>: \<open>INSERT INTO blacklists.<name> (item) VALUES (str(item)) RETURNING id\<close>; the
  result carries the argument \<open>item\<close> itself, not the stored text.
\<close>

definition add :: "pyval \<Rightarrow> bl_table \<Rightarrow> BlacklistItem \<times> bl_table" where
  "add item t =
     (let i = last_value t + 1
      in (BlacklistItem i item False,
          \<lparr>rows = rows t @ [\<lparr>row_id = i, row_item = py_str item, row_retired = False\<rparr>],
           last_value = i\<rparr>))"

text \<open>\<open>get_by_value\<close>: \<open>SELECT * ... WHERE item = str(item)\<close>, first row, absent when retired.\<close>

definition get_by_value :: "pyval \<Rightarrow> bl_table \<Rightarrow> BlacklistItem option" where
  "get_by_value item t =
     (case fetchrow (\<lambda>r. row_item r = py_str item) t of
        None \<Rightarrow> None
      | Some row \<Rightarrow>
          if row_retired row then None
          else Some (BlacklistItem (row_id row) (PStr (row_item row)) (row_retired row)))"

text \<open>\<open>get\<close>: \<open>SELECT * ... WHERE id = index\<close>, first row, whatever its \<open>retired\<close> flag.\<close>

definition get :: "int \<Rightarrow> bl_table \<Rightarrow> BlacklistItem option" where
  "get i t =
     (case fetchrow (\<lambda>r. row_id r = i) t of
        None \<Rightarrow> None
      | Some row \<Rightarrow> Some (BlacklistItem (row_id row) (PStr (row_item row)) (row_retired row)))"

text \<open>
  \<open>retire\<close>: \<open>UPDATE ... SET retired=TRUE WHERE item = str(item) RETURNING id\<close>. Every row
  with that item is updated, the statement's \<open>WHERE\<close> does not read \<open>retired\<close>; the result is
  the first returned row (its \<open>id\<close>), or \<open>None\<close> when no row matched.
\<close>

definition retire :: "pyval \<Rightarrow> bl_table \<Rightarrow> int option \<times> bl_table" where
  "retire item t =
     (map_option row_id (fetchrow (\<lambda>r. row_item r = py_str item) t),
      t\<lparr>rows := map (\<lambda>r. if row_item r = py_str item then r\<lparr>row_retired := True\<rparr> else r)
                    (rows t)\<rparr>)"


text \<open>\<open>get_indices\<close>: \<open>SELECT * ... WHERE id = any(indices)\<close>.\<close>

definition get_indices :: "int list \<Rightarrow> bl_table \<Rightarrow> BlacklistItem list" where
  "get_indices indices t =
     map (\<lambda>row. BlacklistItem (row_id row) (PStr (row_item row)) (row_retired row))
         (filter (\<lambda>r. row_id r \<in> set indices) (rows t))"

subsection \<open>The six tables together, and histories of writes\<close>

type_synonym blacklists = "category \<Rightarrow> bl_table"

definition empty_blacklists :: blacklists where
  "empty_blacklists = (\<lambda>c. empty_table)"

text \<open>The two writing operations, on the table of one category.\<close>

datatype bl_write = Add category pyval | Retire category pyval

fun apply_write :: "bl_write \<Rightarrow> blacklists \<Rightarrow> blacklists" where
  "apply_write (Add c item) db = db(c := snd (add item (db c)))"
| "apply_write (Retire c item) db = db(c := snd (retire item (db c)))"

definition history :: "bl_write list \<Rightarrow> blacklists \<Rightarrow> blacklists" where
  "history ws db = fold apply_write ws db"


section \<open>Errors\<close>

text \<open>
  The exceptions that can leave the modelled functions. \<open>CopyRecordsError\<close> stands for
  what \<open>copy_records_to_table\<close> raises (\<open>OverflowError\<close> from the encoder for an id
  outside 64 bits, the server's refusal of a NUL character in a text), and
  \<open>CardinalityViolation\<close> is raised by the database for the \<open>INSERT\<close>, both inside
  \<open>upsert_multiple\<close>'s transaction. \<open>AuthorityError\<close> stands for any exception of the
  external ban authority's client, \<open>PlatformError\<close> for any exception of a call to the
  chat platform that the handler does not catch, \<open>StorageError\<close> for any exception of
  the handler's query to the database. The others are Python's own.
\<close>

datatype error =
    ValueError
  | IndexError
  | TypeError
  | UnboundLocalError
  | AttributeError
  | CopyRecordsError
  | CardinalityViolation
  | AuthorityError
  | PlatformError
  | StorageError
  | ItemDoesNotExistError

section \<open>Python's \<open>int(str)\<close>\<close>

text \<open>
  Text is modelled bytewise (UTF-8). On ASCII text of at most 4300 characters \<open>int\<close> is
  written out: surrounding whitespace is stripped, one sign is allowed, then decimal
  digits, where single underscores may separate digits; anything else is a
  \<open>ValueError\<close>, here \<open>None\<close>. On any other text (Unicode digits and spaces, which \<open>int\<close>
  accepts too, or a numeral so long that newer interpreters refuse to convert it) the
  result is a parameter, \<open>int_otherwise\<close>, so that nothing is assumed about it. The
  other parameter of the run time is the clock: \<open>clock k\<close> is the reading of
  \<open>datetime.datetime.now()\<close> at its \<open>k\<close>-th call.
\<close>

record Runtime =
  clock :: "nat \<Rightarrow> int"
  int_otherwise :: "string \<Rightarrow> int option"

definition is_space :: "char \<Rightarrow> bool" where
  "is_space c \<longleftrightarrow> (of_char c :: nat) \<in> {9, 10, 11, 12, 13, 28, 29, 30, 31, 32}"

definition strip :: "string \<Rightarrow> string" where
  "strip s = rev (dropWhile is_space (rev (dropWhile is_space s)))"

definition digit_of :: "char \<Rightarrow> nat option" where
  "digit_of c = (let n = (of_char c :: nat) in if 48 \<le> n \<and> n \<le> 57 then Some (n - 48) else None)"

text \<open>\<open>py_digits acc s\<close>: the rest of a numeral after a digit, \<open>acc\<close> the value read so far.\<close>

fun py_digits :: "nat \<Rightarrow> string \<Rightarrow> nat option" where
  "py_digits acc [] = Some acc"
| "py_digits acc [c] = (case digit_of c of None \<Rightarrow> None | Some k \<Rightarrow> Some (10 * acc + k))"
| "py_digits acc (c # d # ds) =
     (if c = CHR ''_'' then
        (case digit_of d of None \<Rightarrow> None | Some k \<Rightarrow> py_digits (10 * acc + k) ds)
      else
        (case digit_of c of None \<Rightarrow> None | Some k \<Rightarrow> py_digits (10 * acc + k) (d # ds)))"

definition py_nat :: "string \<Rightarrow> nat option" where
  "py_nat s =
     (case s of
        [] \<Rightarrow> None
      | c # cs \<Rightarrow> (case digit_of c of None \<Rightarrow> None | Some k \<Rightarrow> py_digits k cs))"

definition ascii_int :: "string \<Rightarrow> int option" where
  "ascii_int s =
     (case strip s of
        [] \<Rightarrow> None
      | c # cs \<Rightarrow>
          if c = CHR ''+'' then map_option int (py_nat cs)
          else if c = CHR ''-'' then map_option (\<lambda>n. - int n) (py_nat cs)
          else map_option int (py_nat (c # cs)))"

definition is_ascii :: "string \<Rightarrow> bool" where
  "is_ascii s \<longleftrightarrow> list_all (\<lambda>c. (of_char c :: nat) < 128) s"

definition py_int :: "Runtime \<Rightarrow> string \<Rightarrow> int option" where
  "py_int rt s = (if is_ascii s \<and> length s \<le> 4300 then ascii_int s else int_otherwise rt s)"

section \<open>The ban registry (database/postgres.py, class BanList)\<close>

text \<open>
  The table \<open>banlist\<close>. \<open>ON CONFLICT (id)\<close> in \<open>upsert_multiple\<close> needs a unique index on
  \<open>id\<close>, so the table is a map from \<open>id\<close> to the other three columns, in the order in
  which \<open>upsert_multiple\<close> builds its records: reason, date, message.
\<close>

record ban_row =
  ban_reason :: string
  ban_date :: int
  ban_message :: "string option"

type_synonym banlist = "int \<rightharpoonup> ban_row"

datatype BannedUser = BannedUser (banned_id: int) (banned_reason: string)

text \<open>\<open>get_user\<close>: \<open>SELECT * FROM banlist WHERE id = uid\<close>; \<open>None\<close> when there is no row.\<close>

definition get_user :: "int \<Rightarrow> banlist \<Rightarrow> BannedUser option" where
  "get_user u bl = (case bl u of None \<Rightarrow> None | Some row \<Rightarrow> Some (BannedUser u (ban_reason row)))"

definition remove :: "int \<Rightarrow> banlist \<Rightarrow> banlist" where
  "remove u bl = bl(u := None)"

text \<open>One dictionary of \<open>rose_csv_to_dict\<close>'s result: \<open>{'id': _id, 'reason': reason}\<close>.\<close>

record ban_dict =
  dict_id :: string
  dict_reason :: string

text \<open>
  The first line of \<open>upsert_multiple\<close>: the list comprehension
  \<open>[(int(u['id']), str(u['reason']), datetime.datetime.now(), None) for u in bans]\<close>.
  The first \<open>int\<close> that fails raises \<open>ValueError\<close> out of the comprehension; \<open>k\<close> counts
  the records built so far.
\<close>

fun to_records :: "Runtime \<Rightarrow> nat \<Rightarrow> ban_dict list \<Rightarrow> error + (int \<times> ban_row) list" where
  "to_records rt k [] = Inr []"
| "to_records rt k (u # us) =
     (case py_int rt (dict_id u) of
        None \<Rightarrow> Inl ValueError
      | Some i \<Rightarrow>
          (case to_records rt (Suc k) us of
             Inl e \<Rightarrow> Inl e
           | Inr recs \<Rightarrow>
               Inr ((i, \<lparr>ban_reason = dict_reason u, ban_date = clock rt k, ban_message = None\<rparr>)
                    # recs)))"

text \<open>
  What \<open>copy_records_to_table\<close> accepts for the temporary table
  \<open>_data(id BIGINT, reason TEXT, ...)\<close>: an id of 64 bits (signed) and a text without
  the NUL character.
\<close>

definition in_bigint :: "int \<Rightarrow> bool" where
  "in_bigint i \<longleftrightarrow> - (2 ^ 63) \<le> i \<and> i < 2 ^ 63"

definition copyable :: "int \<times> ban_row \<Rightarrow> bool" where
  "copyable r \<longleftrightarrow> in_bigint (fst r) \<and> CHR 0x00 \<notin> set (ban_reason (snd r))"

text \<open>
  One proposed row of \<open>INSERT INTO banlist SELECT * FROM _data ON CONFLICT (id) DO UPDATE
  SET reason=excluded.reason, date=excluded.date\<close>: a new id is inserted with the
  record's four columns, an existing row keeps its message and takes the new reason and date.
\<close>

definition upsert :: "int \<times> ban_row \<Rightarrow> banlist \<Rightarrow> banlist" where
  "upsert rec bl =
     (case bl (fst rec) of
        None \<Rightarrow> bl(fst rec \<mapsto> snd rec)
      | Some old \<Rightarrow>
          bl(fst rec \<mapsto> old\<lparr>ban_reason := ban_reason (snd rec), ban_date := ban_date (snd rec)\<rparr>))"

text \<open>
  \<open>upsert_multiple\<close>. After the comprehension, everything runs in one transaction: the
  records are copied into the temporary table \<open>_data\<close> (which fails unless every record
  is \<open>copyable\<close>), then the single \<open>INSERT ... ON CONFLICT (id) DO UPDATE\<close> statement proposes
  every row of \<open>_data\<close>. PostgreSQL does not let one such statement touch a row twice:
  when two proposed rows carry the same id, the second one conflicts with the row the
  statement itself has just inserted or updated, and the statement fails with
  \<open>ON CONFLICT DO UPDATE command cannot affect row a second time\<close> (SQLSTATE 21000,
  cardinality violation). An exception leaves the transaction block, which rolls back:
  the table is as before. The result is the exception, or the new table.
\<close>

definition upsert_multiple :: "ban_dict list \<Rightarrow> Runtime \<Rightarrow> banlist \<Rightarrow> error + banlist" where
  "upsert_multiple bans rt bl =
     (case to_records rt 0 bans of
        Inl e \<Rightarrow> Inl e
      | Inr recs \<Rightarrow>
          if \<not> list_all copyable recs then Inl CopyRecordsError
          else if \<not> distinct (map fst recs) then Inl CardinalityViolation
          else Inr (fold upsert recs bl))"

section \<open>Reading a CSV export (utils/helpers.py, rose_csv_to_dict)\<close>

text \<open>
  \<open>csv.reader\<close> is the standard library's; the model starts from the rows it yields, one
  list of fields for each record of the decoded file, the header first (a blank line
  yields the empty list). \<open>next(csv_file, None)\<close> drops the header if there is one; the
  loop then reads \<open>line[0]\<close> and \<open>line[-1]\<close>, which raise \<open>IndexError\<close> on an empty row.
\<close>

fun read_lines :: "string list list \<Rightarrow> ban_dict list \<Rightarrow> error + ban_dict list" where
  "read_lines [] bans = Inr bans"
| "read_lines (line # rest) bans =
     (case line of
        [] \<Rightarrow> Inl IndexError
      | ident # _ \<Rightarrow> read_lines rest (bans @ [\<lparr>dict_id = ident, dict_reason = last line\<rparr>]))"

definition rose_csv_to_dict :: "string list list \<Rightarrow> error + ban_dict list" where
  "rose_csv_to_dict csv_file = read_lines (drop 1 csv_file) []"


section \<open>Importing a ban list (plugins/autobahn/banlist.py, import_)\<close>

definition SWAPI_SLICE_LENGTH :: nat where
  "SWAPI_SLICE_LENGTH = 50"

text \<open>
  The external ban authority's client, \<open>client.sw\<close>: its permission level and
  \<open>add_bans\<close>, which either returns (\<open>True\<close>) or raises (\<open>False\<close>) for a list of bans.
\<close>

datatype Permission = Root | Admin | User

record sw_ban =
  sw_user_id :: int
  sw_reason :: string
  sw_admin :: int

record SpamWatch =
  permission :: Permission
  add_bans :: "sw_ban list \<Rightarrow> bool"

record Client =
  sw :: "SpamWatch option"
  me_id :: int

text \<open>
  What the handlers read from the command message: whether it is a reply and, of the
  message replied to, the extension \<open>os.path.splitext\<close> gives for the file name of its
  document (\<open>None\<close> when \<open>reply_msg.document.attributes[0].file_name\<close> raises, as it does
  for a message without a document), the records \<open>csv.reader\<close> yields for its downloaded
  and decoded content (or the exception that the download, \<open>data.decode()\<close> or the reader
  raises), and its downloaded bytes when it has a file or a photo.
\<close>

record Message =
  is_reply :: bool
  reply_ext :: "string option"
  reply_csv :: "error + string list list"
  reply_file :: "string option"
  reply_photo :: "string option"

text \<open>The state the import acts on: the ban registry and the calls made to \<open>add_bans\<close>.\<close>

record import_state =
  registry :: banlist
  pushed :: "sw_ban list list"

text \<open>\<open>bans.get(reason, [])\<close> and \<open>bans[reason] = ...\<close> on a dictionary in insertion order.\<close>

definition dict_get :: "(string \<times> string list) list \<Rightarrow> string \<Rightarrow> string list" where
  "dict_get d k = (case map_of d k of None \<Rightarrow> [] | Some v \<Rightarrow> v)"

fun dict_set :: "(string \<times> string list) list \<Rightarrow> string \<Rightarrow> string list
    \<Rightarrow> (string \<times> string list) list" where
  "dict_set [] k v = [(k, v)]"
| "dict_set (p # ps) k v = (if fst p = k then (k, v) # ps else p # dict_set ps k v)"

text \<open>\<open>for b in _banlist: bans[b['reason']] = bans.get(b['reason'], []) + [b['id']]\<close>\<close>

fun by_reason :: "ban_dict list \<Rightarrow> (string \<times> string list) list \<Rightarrow> (string \<times> string list) list" where
  "by_reason [] bans = bans"
| "by_reason (b # bs) bans =
     by_reason bs (dict_set bans (dict_reason b) (dict_get bans (dict_reason b) @ [dict_id b]))"

text \<open>\<open>[Ban(int(uid), reason, admin_id) for uid in uids]\<close>\<close>

fun to_bans :: "Runtime \<Rightarrow> string \<Rightarrow> int \<Rightarrow> string list \<Rightarrow> error + sw_ban list" where
  "to_bans rt reason admin_id [] = Inr []"
| "to_bans rt reason admin_id (u # us) =
     (case py_int rt u of
        None \<Rightarrow> Inl ValueError
      | Some i \<Rightarrow>
          (case to_bans rt reason admin_id us of
             Inl e \<Rightarrow> Inl e
           | Inr bs \<Rightarrow> Inr (\<lparr>sw_user_id = i, sw_reason = reason, sw_admin = admin_id\<rparr> # bs)))"

text \<open>
  The inner loop \<open>while uids_copy: add_bans(...uids_copy[:50]); uids_copy = uids_copy[50:]\<close>.
  Nothing catches an exception of \<open>add_bans\<close>: it ends the loop and the command. The
  result is the exception, if any, and the calls made so far (the failing one included).
\<close>

function push_uids :: "Runtime \<Rightarrow> SpamWatch \<Rightarrow> int \<Rightarrow> string \<Rightarrow> string list
    \<Rightarrow> sw_ban list list \<Rightarrow> error option \<times> sw_ban list list" where
  "push_uids rt s admin_id reason uids_copy calls =
     (if uids_copy = [] then (None, calls)
      else
        (case to_bans rt reason admin_id (take SWAPI_SLICE_LENGTH uids_copy) of
           Inl e \<Rightarrow> (Some e, calls)
         | Inr chunk \<Rightarrow>
             if add_bans s chunk
             then push_uids rt s admin_id reason (drop SWAPI_SLICE_LENGTH uids_copy)
                    (calls @ [chunk])
             else (Some AuthorityError, calls @ [chunk])))"
  by pat_completeness auto
termination
  by (relation "measure (\<lambda>(rt, s, a, r, uids_copy, calls). length uids_copy)")
     (auto simp: SWAPI_SLICE_LENGTH_def)

declare push_uids.simps [simp del]

text \<open>The outer loop \<open>for reason, uids in bans.items()\<close>.\<close>

fun push_all :: "Runtime \<Rightarrow> SpamWatch \<Rightarrow> int \<Rightarrow> (string \<times> string list) list
    \<Rightarrow> sw_ban list list \<Rightarrow> error option \<times> sw_ban list list" where
  "push_all rt s admin_id [] calls = (None, calls)"
| "push_all rt s admin_id ((reason, uids) # rest) calls =
     (case push_uids rt s admin_id reason uids calls of
        (Some e, calls') \<Rightarrow> (Some e, calls')
      | (None, calls') \<Rightarrow> push_all rt s admin_id rest calls')"

text \<open>
  What \<open>import_\<close> answers: nothing (the command was not a reply), the error section, or
  the result section with \<open>len(_banlist)\<close>.
\<close>

datatype import_reply = NoReply | NotCSV | ImportResult nat

definition import_cmd :: "Client \<Rightarrow> Message \<Rightarrow> Runtime \<Rightarrow> import_state
    \<Rightarrow> (error + import_reply) \<times> import_state" where
  "import_cmd client msg rt st =
     (if \<not> is_reply msg then (Inr NoReply, st)
      else
        (case reply_ext msg of
           None \<Rightarrow> (Inl AttributeError, st)
         | Some ext \<Rightarrow>
             if ext \<noteq> ''.csv'' then (Inr NotCSV, st)
             else
               (case reply_csv msg of
                  Inl e \<Rightarrow> (Inl e, st)
                | Inr csv_file \<Rightarrow>
                    (case rose_csv_to_dict csv_file of
                       Inl e \<Rightarrow> (Inl e, st)
                     | Inr bans \<Rightarrow>
                         if bans = [] then (Inr (ImportResult (length bans)), st)
                         else
                           (case upsert_multiple bans rt (registry st) of
                              Inl e \<Rightarrow> (Inl e, st)
                            | Inr bl \<Rightarrow>
                                (case sw client of
                                   None \<Rightarrow>
                                     (Inr (ImportResult (length bans)), st\<lparr>registry := bl\<rparr>)
                                 | Some s \<Rightarrow>
                                     if permission s = Admin \<or> permission s = Root then
                                       (case push_all rt s (me_id client) (by_reason bans [])
                                               (pushed st) of
                                          (Some e, calls) \<Rightarrow>
                                            (Inl e, st\<lparr>registry := bl, pushed := calls\<rparr>)
                                        | (None, calls) \<Rightarrow>
                                            (Inr (ImportResult (length bans)),
                                             st\<lparr>registry := bl, pushed := calls\<rparr>))
                                     else
                                       (Inr (ImportResult (length bans)),
                                        st\<lparr>registry := bl\<rparr>)))))))"

section \<open>The enforcement handler (plugins/autobahn/automatic/grenzschutz.py)\<close>

datatype MessageAction =
    MessageActionChatJoinedByLink
  | MessageActionChatAddUser
  | MessageActionOther

text \<open>
  The two events the handler is registered for. Of a \<open>ChatAction.Event\<close> it reads
  \<open>user_left\<close>, \<open>user_kicked\<close>, \<open>action_message\<close> (here the action it carries, if
  there is a message) and \<open>user_id\<close>; of a \<open>NewMessage.Event\<close>, \<open>message.from_id\<close>.
\<close>

record ChatActionEvent =
  user_left :: bool
  user_kicked :: bool
  action_message :: "MessageAction option"
  user_id :: "int option"

datatype event_kind = ChatAction ChatActionEvent | NewMessage "int option" | OtherEvent

record ChatAdminRights =
  ban_users :: bool

record Channel =
  creator :: bool
  admin_rights :: "ChatAdminRights option"

text \<open>
  An event with what the handler obtains for it: \<open>event.get_chat()\<close> and the chat's tags
  (\<open>Tags.create(event)\<close>, read with \<open>tags.get\<close>).
\<close>

record Event =
  is_private :: bool
  kind :: event_kind
  chat_id :: int
  chat :: Channel
  tags :: "string \<rightharpoonup> pyval"

record TgUser =
  first_name :: string

text \<open>
  The calls to the platform and what each can do. \<open>client.get_entity\<close> returns the user,
  raises \<open>ValueError\<close> (which the handler catches) or raises something else;
  \<open>client.get_participants(chat_id, filter=ChannelParticipantsAdmins())\<close> returns the
  participants, of which the handler keeps the ids, or raises (\<open>None\<close>); \<open>client.ban\<close>
  returns, raises \<open>UserIdInvalidError\<close> (caught) or raises something else;
  \<open>event.delete()\<close> and \<open>client.respond\<close> return (\<open>True\<close>) or raise. The ban registry is
  the table \<open>banlist_of\<close>, and the query to it returns (\<open>lookup_returns\<close>) or raises.
\<close>

datatype entity_result = EntityFound TgUser | EntityValueError | EntityRaised

datatype ban_result = BanReturned | BanUserIdInvalid | BanRaised

record Platform =
  get_entity :: "int \<Rightarrow> entity_result"
  banlist_of :: banlist
  lookup_returns :: bool
  get_participants :: "int \<Rightarrow> int list option"
  ban :: "int \<Rightarrow> int \<Rightarrow> ban_result"
  delete_returns :: bool
  respond_returns :: bool

text \<open>
  What the handler does to the outside, in order: an error logged, \<open>client.ban(chat,
  uid)\<close> called, \<open>event.delete()\<close> called for the triggering message, \<open>client.respond\<close>
  called with the notification (first name, user id, reason, and the delay of its
  deletion). A call is recorded when it is made, whether it then returns or raises.
\<close>

datatype effect =
    LogError
  | BanCall int int
  | DeleteEvent
  | Respond string int string nat

text \<open>
  How a run ends: one constructor for each \<open>return\<close> of the source, in its order, the
  end of the function (\<open>AdminExempt\<close>, \<open>Banned\<close>), and \<open>Raised\<close> for an exception that
  leaves the handler.
\<close>

datatype outcome =
    IgnoredPrivate
  | IgnoredLeftOrKicked
  | IgnoredNoActionMessage
  | IgnoredOtherAction
  | IgnoredNoAuthority
  | IgnoredNoBanRight
  | IgnoredExcluded
  | IgnoredEventType
  | IgnoredNoUser
  | NotBanned
  | AdminExempt
  | BanFailed
  | Banned
  | Raised error

text \<open>
  Lines 39 to 47: a \<open>ChatAction.Event\<close> goes on only if nobody left or was kicked and its
  action message carries a join-by-link or an add-user action.
\<close>

definition event_shape :: "event_kind \<Rightarrow> outcome option" where
  "event_shape k =
     (case k of
        ChatAction a \<Rightarrow>
          if user_left a \<or> user_kicked a then Some IgnoredLeftOrKicked
          else
            (case action_message a of
               None \<Rightarrow> Some IgnoredNoActionMessage
             | Some act \<Rightarrow>
                 if \<not> (act = MessageActionChatJoinedByLink \<or> act = MessageActionChatAddUser)
                 then Some IgnoredOtherAction
                 else None)
      | _ \<Rightarrow> None)"

text \<open>
  Lines 50 to 53: \<open>if not chat.creator and not chat.admin_rights: return\<close>, then
  \<open>if chat.admin_rights and not chat.admin_rights.ban_users: return\<close>.
\<close>

definition check_authority :: "Channel \<Rightarrow> outcome option" where
  "check_authority ch =
     (if \<not> creator ch \<and> admin_rights ch = None then Some IgnoredNoAuthority
      else
        (case admin_rights ch of
           Some r \<Rightarrow> if \<not> ban_users r then Some IgnoredNoBanRight else None
         | None \<Rightarrow> None))"

text \<open>Lines 62 to 69: the subject of the event.\<close>

definition subject :: "event_kind \<Rightarrow> outcome + int" where
  "subject k =
     (case k of
        ChatAction a \<Rightarrow> (case user_id a of None \<Rightarrow> Inl IgnoredNoUser | Some u \<Rightarrow> Inr u)
      | NewMessage from_id \<Rightarrow> (case from_id of None \<Rightarrow> Inl IgnoredNoUser | Some u \<Rightarrow> Inr u)
      | OtherEvent \<Rightarrow> Inl IgnoredEventType)"

text \<open>
  Lines 70 to 96, for the subject \<open>u\<close>. \<open>db.banlist.get(uid)\<close> is the registry's lookup
  by id, \<open>get_user\<close>. An exception that no \<open>except\<close> clause names leaves the handler at
  the call that raised it. When \<open>get_entity\<close> has raised \<open>ValueError\<close>, \<open>user\<close> is never
  bound, and building the notification raises \<open>UnboundLocalError\<close> at \<open>user.first_name\<close>.
\<close>

definition notify :: "Platform \<Rightarrow> entity_result \<Rightarrow> int \<Rightarrow> string \<Rightarrow> effect list \<times> outcome" where
  "notify p user u why =
     (case user of
        EntityFound usr \<Rightarrow>
          ([Respond (first_name usr) u why 120],
           if respond_returns p then Banned else Raised PlatformError)
      | _ \<Rightarrow> ([], Raised UnboundLocalError))"

definition enforce :: "Platform \<Rightarrow> Event \<Rightarrow> bool \<Rightarrow> int \<Rightarrow> effect list \<times> outcome" where
  "enforce p e silent u =
     (let user = get_entity p u;
          log1 = (if user = EntityValueError then [LogError] else [])
      in if user = EntityRaised then ([], Raised PlatformError)
         else if \<not> lookup_returns p then (log1, Raised StorageError)
         else
           (case get_user u (banlist_of p) of
              None \<Rightarrow> (log1, NotBanned)
            | Some result \<Rightarrow>
                (case get_participants p (chat_id e) of
                   None \<Rightarrow> (log1, Raised PlatformError)
                 | Some admins \<Rightarrow>
                     if u \<notin> set admins then
                       (case ban p (chat_id e) u of
                          BanUserIdInvalid \<Rightarrow> (log1 @ [BanCall (chat_id e) u, LogError], BanFailed)
                        | BanRaised \<Rightarrow> (log1 @ [BanCall (chat_id e) u], Raised PlatformError)
                        | BanReturned \<Rightarrow>
                            if \<not> delete_returns p
                            then (log1 @ [BanCall (chat_id e) u, DeleteEvent], Raised PlatformError)
                            else if \<not> silent then
                              (log1 @ [BanCall (chat_id e) u, DeleteEvent]
                                 @ fst (notify p user u (banned_reason result)),
                               snd (notify p user u (banned_reason result)))
                            else (log1 @ [BanCall (chat_id e) u, DeleteEvent], Banned))
                     else (log1, AdminExempt))))"

definition grenzschutz :: "Platform \<Rightarrow> Event \<Rightarrow> effect list \<times> outcome" where
  "grenzschutz p e =
     (if is_private e then ([], IgnoredPrivate)
      else
        (case event_shape (kind e) of
           Some out \<Rightarrow> ([], out)
         | None \<Rightarrow>
             (case check_authority (chat e) of
                Some out \<Rightarrow> ([], out)
              | None \<Rightarrow>
                  (let polizei_tag = tags e ''polizei'';
                       grenzschutz_tag = tags e ''grenzschutz'';
                       silent = (grenzschutz_tag = Some (PStr ''silent''))
                   in if grenzschutz_tag = Some (PStr ''exclude'')
                         \<or> polizei_tag = Some (PStr ''exclude'')
                      then ([], IgnoredExcluded)
                      else
                        (case subject (kind e) of
                           Inl out \<Rightarrow> ([], out)
                         | Inr u \<Rightarrow> enforce p e silent u)))))"

text \<open>
  The calls of \<open>client.ban\<close> among the effects, and whether \<open>event.delete()\<close> was called.
\<close>

definition ban_calls :: "effect list \<Rightarrow> (int \<times> int) list" where
  "ban_calls es = concat (map (\<lambda>x. case x of BanCall c u \<Rightarrow> [(c, u)] | _ \<Rightarrow> []) es)"

definition deleted :: "effect list \<Rightarrow> bool" where
  "deleted es \<longleftrightarrow> DeleteEvent \<in> set es"

text \<open>Whether the handler gets as far as calling \<open>client.ban\<close> for the subject \<open>u\<close>.\<close>

definition reaches_ban :: "Platform \<Rightarrow> Event \<Rightarrow> int \<Rightarrow> bool" where
  "reaches_ban p e u \<longleftrightarrow>
     get_entity p u \<noteq> EntityRaised \<and> lookup_returns p \<and> get_user u (banlist_of p) \<noteq> None \<and>
     (case get_participants p (chat_id e) of None \<Rightarrow> False | Some admins \<Rightarrow> u \<notin> set admins)"

section \<open>The denylist commands (plugins/autobahn/autobahn_mgr.py)\<close>

definition AUTOBAHN_TYPES :: "(string \<times> string) list" where
  "AUTOBAHN_TYPES =
     [(''bio'', ''0x0''), (''string'', ''0x1''), (''filename'', ''0x2''), (''channel'', ''0x3''),
      (''domain'', ''0x4''), (''file'', ''0x5''), (''mhash'', ''0x6''), (''tld'', ''0x7'')]"

text \<open>\<open>AUTOBAHN_TYPES.get(item_type)\<close>: only a string can be one of the keys.\<close>

definition autobahn_type :: "pyval \<Rightarrow> string option" where
  "autobahn_type item_type = (case item_type of PStr s \<Rightarrow> map_of AUTOBAHN_TYPES s | _ \<Rightarrow> None)"

text \<open>
  \<open>db.blacklists.get(hex_type)\<close>: the lookup in the map from type codes to the six
  tables (\<open>ab_collection_map\<close> in database/postgres.py); \<open>0x2\<close> and \<open>0x7\<close> have no table.
\<close>

definition ab_collection_map :: "(string \<times> category) list" where
  "ab_collection_map =
     [(''0x0'', Bio), (''0x1'', String), (''0x3'', Channel), (''0x4'', Domain),
      (''0x5'', File), (''0x6'', MHash)]"

definition blacklists_get :: "string option \<Rightarrow> category option" where
  "blacklists_get h = (case h of None \<Rightarrow> None | Some x \<Rightarrow> map_of ab_collection_map x)"

text \<open>
  The collaborators of the commands: the invite-link resolver (its chat id, \<open>None\<close> when
  the link does not resolve), \<open>client.get_entity\<close> on a name (\<open>None\<close> when it raises one
  of \<open>GET_ENTITY_ERRORS\<close>, otherwise the entity's id, if the entity is truthy),
  \<open>client.resolve_url\<close>, the list \<open>constants.TELEGRAM_DOMAINS\<close>, the two hashes
  (\<open>hashlib.sha512(...).hexdigest()\<close> and the average hash of a photo), and \<open>str.lower\<close>
  on text that is not ASCII.
\<close>

record Resolver =
  resolve_invite_link :: "string \<Rightarrow> int option"
  get_entity_id :: "string \<Rightarrow> int option option"
  resolve_url :: "pyval \<Rightarrow> string"
  TELEGRAM_DOMAINS :: "string list"
  hash_file :: "string \<Rightarrow> string"
  hash_photo :: "string \<Rightarrow> string"
  lower_otherwise :: "string \<Rightarrow> string"

text \<open>
  String helpers of Python: \<open>startswith\<close>, \<open>split\<close> at a separator, and \<open>lower\<close>, which is
  written out on ASCII text and is the collaborator \<open>lower_otherwise\<close> on any other.
\<close>

definition startswith :: "string \<Rightarrow> string \<Rightarrow> bool" where
  "startswith s p \<longleftrightarrow> take (length p) s = p"

fun split_on :: "(char \<Rightarrow> bool) \<Rightarrow> string \<Rightarrow> string list" where
  "split_on P [] = [[]]"
| "split_on P (c # cs) =
     (if P c then [] # split_on P cs
      else (case split_on P cs of [] \<Rightarrow> [[c]] | w # ws \<Rightarrow> (c # w) # ws))"

definition lower_char :: "char \<Rightarrow> char" where
  "lower_char c =
     (let n = (of_char c :: nat) in if 65 \<le> n \<and> n \<le> 90 then char_of (n + 32) else c)"

definition lower :: "Resolver \<Rightarrow> string \<Rightarrow> string" where
  "lower env s = (if is_ascii s then map lower_char s else lower_otherwise env s)"

text \<open>
  \<open>for param in params: if param.startswith('domain'): _, _item = param.split('=')\<close>; the
  unpacking raises \<open>ValueError\<close> unless the split has exactly two parts.
\<close>

fun domain_param :: "string list \<Rightarrow> string \<Rightarrow> error + string" where
  "domain_param [] it = Inr it"
| "domain_param (param # params) it =
     (if startswith param ''domain'' then
        (case split_on (\<lambda>c. c = CHR ''='') param of
           [_, v] \<Rightarrow> domain_param params v
         | _ \<Rightarrow> Inl ValueError)
      else domain_param params it)"

text \<open>
  What one round of \<open>add\<close>'s loop makes of an item before the lookup (lines 75 to 108):
  the canonical item, an item to report as skipped, or an exception.
\<close>

datatype resolved = Proceed pyval | Skipped pyval | Failed error

definition resolve_channel :: "Resolver \<Rightarrow> pyval \<Rightarrow> resolved" where
  "resolve_channel env item =
     (case item of
        PStr s \<Rightarrow>
          (case resolve_invite_link env s of
             Some cid \<Rightarrow> Proceed (PInt cid)
           | None \<Rightarrow>
               (case (if startswith s ''tg://resolve''
                      then domain_param (tl (split_on (\<lambda>c. c = CHR ''?'' \<or> c = CHR ''&'') s)) s
                      else Inr (filter (\<lambda>c. c \<noteq> CHR ''@'') (hd (split_on (\<lambda>c. c = CHR ''?'') s))))
                of
                  Inl e \<Rightarrow> Failed e
                | Inr it \<Rightarrow>
                    (case get_entity_id env it of
                       None \<Rightarrow> Skipped (PStr it)
                     | Some None \<Rightarrow> Skipped PNone
                     | Some (Some i) \<Rightarrow> Proceed (PInt i))))
      | _ \<Rightarrow> Failed TypeError)"

definition resolve_item :: "Resolver \<Rightarrow> string \<Rightarrow> pyval \<Rightarrow> resolved" where
  "resolve_item env h item =
     (if h = ''0x3'' then resolve_channel env item
      else if h = ''0x4'' then
        (let d = lower env (resolve_url env item)
         in if d \<in> set (TELEGRAM_DOMAINS env) then Skipped (PStr d) else Proceed (PStr d))
      else if h = ''0x7'' then
        (case item of
           PStr s \<Rightarrow> Proceed (PStr (filter (\<lambda>c. c \<noteq> CHR ''.'') s))
         | _ \<Rightarrow> Failed AttributeError)
      else if item = PNone then Skipped PNone
      else Proceed item)"

text \<open>
  The three buckets of the report and the warning; each added or existing item is
  reported as \<open>KeyValueItem(index, Code(value))\<close>.
\<close>

record report =
  added_items :: "(int \<times> pyval) list"
  existing_items :: "(int \<times> pyval) list"
  skipped_items :: "pyval list"
  warn_message :: string

definition empty_report :: report where
  "empty_report = \<lparr>added_items = [], existing_items = [], skipped_items = [], warn_message = []\<rparr>"

datatype add_reply = ErrorSection string | Sections report

text \<open>
  The loop \<open>for item in items\<close> of \<open>add\<close> (lines 72 to 114), with the tables and the
  report as they stand.
\<close>

fun add_items :: "Resolver \<Rightarrow> string option \<Rightarrow> pyval list \<Rightarrow> report \<Rightarrow> blacklists
    \<Rightarrow> (error + report) \<times> blacklists" where
  "add_items env h [] rep db = (Inr rep, db)"
| "add_items env h (item # items) rep db =
     (case h of
        None \<Rightarrow> add_items env h items rep db
      | Some hx \<Rightarrow>
          (case blacklists_get h of
             None \<Rightarrow> add_items env h items rep db
           | Some c \<Rightarrow>
               (case resolve_item env hx item of
                  Failed e \<Rightarrow> (Inl e, db)
                | Skipped x \<Rightarrow>
                    add_items env h items (rep\<lparr>skipped_items := skipped_items rep @ [x]\<rparr>) db
                | Proceed x \<Rightarrow>
                    (case get_by_value x (db c) of
                       None \<Rightarrow>
                         (let entry = fst (add x (db c))
                          in add_items env h items
                               (rep\<lparr>added_items := added_items rep @ [(index entry, val entry)]\<rparr>)
                               (db(c := snd (add x (db c)))))
                     | Some existing_one \<Rightarrow>
                         add_items env h items
                           (rep\<lparr>existing_items :=
                                  existing_items rep @ [(index existing_one, val existing_one)]\<rparr>)
                           db))))"

text \<open>
  Lines 116 to 136, the file denylist with no inline items. After the download and the
  hash, line 129 reads the loop variable: \<open>existing_one = await blacklist.get(item)\<close>.
  This branch is entered only when \<open>items\<close> is empty, so the loop never bound \<open>item\<close>, and
  reading it raises \<open>UnboundLocalError\<close>; nothing of lines 131 to 136 is ever run.
\<close>

definition add_file :: "Resolver \<Rightarrow> Message \<Rightarrow> report \<Rightarrow> blacklists
    \<Rightarrow> (error + add_reply) \<times> blacklists" where
  "add_file env msg rep db =
     (if \<not> is_reply msg then (Inr (ErrorSection ''Need to reply to a file''), db)
      else
        (case reply_file msg of
           None \<Rightarrow> (Inr (ErrorSection ''Need to reply to a file''), db)
         | Some file \<Rightarrow>
             (let file_hash = hash_file env file
              in (Inl UnboundLocalError, db))))"

text \<open>Lines 137 to 159, the photo denylist with no inline items.\<close>

definition add_photo :: "Resolver \<Rightarrow> Message \<Rightarrow> report \<Rightarrow> blacklists
    \<Rightarrow> (error + add_reply) \<times> blacklists" where
  "add_photo env msg rep db =
     (if \<not> is_reply msg then (Inr (ErrorSection ''Need to reply to a photo''), db)
      else
        (case reply_photo msg of
           None \<Rightarrow> (Inr (ErrorSection ''Need to reply to a photo''), db)
         | Some dl_photo \<Rightarrow>
             (let photo_hash = PStr (hash_photo env dl_photo)
              in case get_by_value photo_hash (db MHash) of
                   None \<Rightarrow>
                     (let entry = fst (add photo_hash (db MHash));
                          warn = (if 8 < count_list (py_str photo_hash) CHR ''0''
                                  then ''The image seems to contain a lot of the same color. This might lead to false positives.''
                                  else warn_message rep)
                      in (Inr (Sections (rep\<lparr>added_items :=
                                                added_items rep @ [(index entry, val entry)],
                                              warn_message := warn\<rparr>)),
                          db(MHash := snd (add photo_hash (db MHash)))))
                 | Some existing_one \<Rightarrow>
                     (Inr (Sections (rep\<lparr>existing_items :=
                                            existing_items rep
                                            @ [(index existing_one, val existing_one)]\<rparr>)),
                      db))))"

text \<open>
  The command \<open>add\<close>: \<open>args[0]\<close> is the type, the rest are the items.
\<close>

definition add_cmd :: "Resolver \<Rightarrow> Message \<Rightarrow> pyval list \<Rightarrow> blacklists
    \<Rightarrow> (error + add_reply) \<times> blacklists" where
  "add_cmd env msg args db =
     (case args of
        [] \<Rightarrow> (Inl IndexError, db)
      | item_type # items \<Rightarrow>
          (let h = autobahn_type item_type
           in case add_items env h items empty_report db of
                (Inl e, db') \<Rightarrow> (Inl e, db')
              | (Inr rep, db') \<Rightarrow>
                  if items = [] \<and> h = Some ''0x5'' then add_file env msg rep db'
                  else if items = [] \<and> h = Some ''0x6'' then add_photo env msg rep db'
                  else (Inr (Sections rep), db')))"






section \<open>Invariants used in the proofs\<close>

text \<open>
  Of a denylist table: no index exceeds the counter and no index occurs twice; the table
  holds a row with a given index and item; it holds such a row and the row is retired.
\<close>

definition seq_inv :: "bl_table \<Rightarrow> bool" where
  "seq_inv t \<longleftrightarrow>
     (\<forall>i\<in>set (map row_id (rows t)). i \<le> last_value t) \<and> distinct (map row_id (rows t))"

definition holds_row :: "bl_table \<Rightarrow> int \<Rightarrow> string \<Rightarrow> bool" where
  "holds_row t i s \<longleftrightarrow> (\<exists>r\<in>set (rows t). row_id r = i \<and> row_item r = s)"

definition retired_row :: "bl_table \<Rightarrow> int \<Rightarrow> string \<Rightarrow> bool" where
  "retired_row t i s \<longleftrightarrow> (\<exists>r\<in>set (rows t). row_id r = i \<and> row_item r = s \<and> row_retired r)"

text \<open>
  For the proofs about the push: the ban built for one id, what holds of the calls made
  by a loop that ended with \<open>err\<close>, and the shape of one call.
\<close>

definition mk_ban :: "Runtime \<Rightarrow> string \<Rightarrow> int \<Rightarrow> string \<Rightarrow> sw_ban" where
  "mk_ban rt r a u = \<lparr>sw_user_id = the (py_int rt u), sw_reason = r, sw_admin = a\<rparr>"

definition pushes_ok :: "SpamWatch \<Rightarrow> sw_ban list list \<Rightarrow> error option \<Rightarrow> bool" where
  "pushes_ok s new err \<longleftrightarrow>
     (\<forall>ch\<in>set (butlast new). add_bans s ch) \<and>
     (case err of
        None \<Rightarrow> (\<forall>ch\<in>set new. add_bans s ch)
      | Some e \<Rightarrow> e = AuthorityError \<and> new \<noteq> [] \<and> \<not> add_bans s (last new))"

definition chunk_ok :: "int \<Rightarrow> sw_ban list \<Rightarrow> bool" where
  "chunk_ok a ch \<longleftrightarrow>
     ch \<noteq> [] \<and> length ch \<le> 50 \<and> (\<exists>r. \<forall>b\<in>set ch. sw_reason b = r \<and> sw_admin b = a)"

section \<open>Properties of the denylist tables\<close>


lemma last_value_add: "last_value (snd (add v t)) = last_value t + 1"
  by (simp add: add_def Let_def)

lemma last_value_retire: "last_value (snd (retire v t)) = last_value t"
  by (simp add: retire_def)

lemma last_value_write: "last_value (db c) \<le> last_value (apply_write w db c)"
  by (cases w) (simp_all add: last_value_add last_value_retire)

lemma last_value_history: "last_value (db c) \<le> last_value (history ws db c)"
  unfolding history_def
proof (induction ws arbitrary: db)
  case Nil
  show ?case by simp
next
  case (Cons w ws)
  have "last_value (db c) \<le> last_value (apply_write w db c)" by (rule last_value_write)
  also have "\<dots> \<le> last_value (fold apply_write ws (apply_write w db) c)" by (rule Cons.IH)
  finally show ?case by simp
qed

lemma seq_inv_empty: "seq_inv empty_table"
  by (simp add: seq_inv_def empty_table_def)

lemma seq_inv_add: "seq_inv t \<Longrightarrow> seq_inv (snd (add v t))"
  by (fastforce simp: seq_inv_def add_def Let_def)

lemma ids_retire: "map row_id (rows (snd (retire v t))) = map row_id (rows t)"
  by (simp add: retire_def comp_def if_distrib cong: if_cong)

lemma seq_inv_retire: "seq_inv t \<Longrightarrow> seq_inv (snd (retire v t))"
  unfolding seq_inv_def by (simp add: ids_retire last_value_retire del: set_map)

lemma seq_inv_write: "\<forall>c. seq_inv (db c) \<Longrightarrow> \<forall>c. seq_inv (apply_write w db c)"
  by (cases w) (simp_all add: seq_inv_add seq_inv_retire)

lemma seq_inv_history: "\<forall>c. seq_inv (db c) \<Longrightarrow> \<forall>c. seq_inv (history ws db c)"
  unfolding history_def
  by (induction ws arbitrary: db) (simp_all add: seq_inv_write del: apply_write.simps)

lemma seq_inv_reachable: "seq_inv (history ws empty_blacklists c)"
  using seq_inv_history [of empty_blacklists ws]
  by (simp add: empty_blacklists_def seq_inv_empty)


lemma find_retire_item:
  "find (\<lambda>r. row_item r = s) (map (\<lambda>r. if row_item r = s then r\<lparr>row_retired := True\<rparr> else r) xs)
   = map_option (\<lambda>r. r\<lparr>row_retired := True\<rparr>) (find (\<lambda>r. row_item r = s) xs)"
  by (induction xs) simp_all

lemma get_by_value_retire: "get_by_value v (snd (retire v t)) = None"
  by (simp add: get_by_value_def retire_def fetchrow_def find_retire_item split: option.splits)

lemma holds_row_add_new: "holds_row (snd (add v t)) (index (fst (add v t))) (py_str v)"
  by (simp add: holds_row_def add_def Let_def)

lemma holds_row_add: "holds_row t i s \<Longrightarrow> holds_row (snd (add v t)) i s"
  by (auto simp: holds_row_def add_def Let_def)

lemma holds_row_retire: "holds_row t i s \<Longrightarrow> holds_row (snd (retire v t)) i s"
proof -
  assume "holds_row t i s"
  then obtain r where r: "r \<in> set (rows t)" "row_id r = i" "row_item r = s"
    by (auto simp: holds_row_def)
  let ?f = "\<lambda>r. if row_item r = py_str v then r\<lparr>row_retired := True\<rparr> else r"
  have "?f r \<in> set (rows (snd (retire v t)))" using r(1) by (simp add: retire_def)
  moreover have "row_id (?f r) = i" "row_item (?f r) = s" using r by simp_all
  ultimately show ?thesis unfolding holds_row_def by blast
qed

lemma holds_row_write: "holds_row (db c) i s \<Longrightarrow> holds_row (apply_write w db c) i s"
  by (cases w) (auto simp: holds_row_add holds_row_retire)

lemma holds_row_history: "holds_row (db c) i s \<Longrightarrow> holds_row (history ws db c) i s"
  unfolding history_def
  by (induction ws arbitrary: db) (simp_all add: holds_row_write del: apply_write.simps)

lemma find_distinct_id:
  "distinct (map row_id xs) \<Longrightarrow> r \<in> set xs \<Longrightarrow> find (\<lambda>x. row_id x = row_id r) xs = Some r"
  by (induction xs) (auto simp: rev_image_eqI)

lemma fetch_item_holds_row:
  "holds_row t i s \<Longrightarrow> fetchrow (\<lambda>x. row_item x = s) t \<noteq> None"
  by (auto simp: holds_row_def fetchrow_def find_None_iff)

lemma history_append: "history (xs @ ys) db = history ys (history xs db)"
  by (simp add: history_def)

lemma history_Cons: "history (w # ws) db = history ws (apply_write w db)"
  by (simp add: history_def)

lemma retired_row_add: "retired_row t i s \<Longrightarrow> retired_row (snd (add v t)) i s"
  by (auto simp: retired_row_def add_def Let_def)

lemma retired_row_retire: "retired_row t i s \<Longrightarrow> retired_row (snd (retire v t)) i s"
proof -
  assume "retired_row t i s"
  then obtain r where r: "r \<in> set (rows t)" "row_id r = i" "row_item r = s" "row_retired r"
    by (auto simp: retired_row_def)
  let ?f = "\<lambda>r. if row_item r = py_str v then r\<lparr>row_retired := True\<rparr> else r"
  have "?f r \<in> set (rows (snd (retire v t)))" using r(1) by (simp add: retire_def)
  moreover have "row_id (?f r) = i" "row_item (?f r) = s" "row_retired (?f r)" using r by simp_all
  ultimately show ?thesis unfolding retired_row_def by blast
qed

lemma retired_row_write: "retired_row (db c) i s \<Longrightarrow> retired_row (apply_write w db c) i s"
  by (cases w) (auto simp: retired_row_add retired_row_retire)

lemma retired_row_history: "retired_row (db c) i s \<Longrightarrow> retired_row (history ws db c) i s"
  unfolding history_def
  by (induction ws arbitrary: db) (simp_all add: retired_row_write del: apply_write.simps)

lemma retire_makes_retired_row:
  "holds_row t i (py_str v) \<Longrightarrow> retired_row (snd (retire v t)) i (py_str v)"
proof -
  assume "holds_row t i (py_str v)"
  then obtain r where r: "r \<in> set (rows t)" "row_id r = i" "row_item r = py_str v"
    by (auto simp: holds_row_def)
  let ?f = "\<lambda>r. if row_item r = py_str v then r\<lparr>row_retired := True\<rparr> else r"
  have "?f r \<in> set (rows (snd (retire v t)))" using r(1) by (simp add: retire_def)
  moreover have "row_id (?f r) = i" "row_item (?f r) = py_str v" "row_retired (?f r)"
    using r by simp_all
  ultimately show ?thesis unfolding retired_row_def by blast
qed

lemma get_retired_row:
  assumes "seq_inv t" and "retired_row t i s"
  shows "get i t = Some (BlacklistItem i (PStr s) True)"
proof -
  from assms(2) obtain r where
    r: "r \<in> set (rows t)" "row_id r = i" "row_item r = s" "row_retired r"
    by (auto simp: retired_row_def)
  from assms(1) have "distinct (map row_id (rows t))" by (simp add: seq_inv_def)
  from find_distinct_id [OF this r(1)] r show ?thesis by (simp add: get_def fetchrow_def)
qed

lemma retire_hits_holds_row:
  "holds_row t i (py_str v) \<Longrightarrow> \<exists>j. fst (retire v t) = Some j"
  using fetch_item_holds_row [of t i "py_str v"] by (auto simp: retire_def)

text \<open>
  Claim C2. In every category \<open>c\<close>, for an entry created by \<open>add\<close> with value \<open>v\<close> after
  any history of writes \<open>ws1\<close>, and whatever is written afterwards (\<open>ws2\<close>): \<open>retire\<close> of
  \<open>v\<close> succeeds; right after it \<open>get_by_value\<close> of \<open>v\<close> is absent, while \<open>get\<close> with the
  entry's index returns the record with \<open>retired = True\<close>; and after any further writes
  \<open>ws3\<close> that \<open>get\<close> still returns the retired record: the row is never removed.
\<close>

theorem retire_is_logical_deletion:
  "let entry = fst (add v (history ws1 empty_blacklists c));
       before = history (ws1 @ Add c v # ws2) empty_blacklists;
       after = history (ws1 @ Add c v # ws2 @ [Retire c v]) empty_blacklists;
       later = history (ws1 @ Add c v # ws2 @ Retire c v # ws3) empty_blacklists
   in (\<exists>j. fst (retire v (before c)) = Some j) \<and>
      get_by_value v (after c) = None \<and>
      get (index entry) (after c) = Some (BlacklistItem (index entry) (PStr (py_str v)) True) \<and>
      get (index entry) (later c) = Some (BlacklistItem (index entry) (PStr (py_str v)) True)"
proof -
  define db1 where "db1 = history ws1 empty_blacklists"
  define i where "i = index (fst (add v (db1 c)))"
  define before where "before = history (ws1 @ Add c v # ws2) empty_blacklists"
  define after where "after = history (ws1 @ Add c v # ws2 @ [Retire c v]) empty_blacklists"
  define later where "later = history (ws1 @ Add c v # ws2 @ Retire c v # ws3) empty_blacklists"
  have before_eq: "before = history ws2 (apply_write (Add c v) db1)"
    by (simp add: before_def db1_def history_append history_Cons)
  have after_eq: "after = apply_write (Retire c v) before"
    by (simp add: after_def before_def history_def)
  have later_eq: "later = history ws3 after"
    by (simp add: later_def after_def history_def)
  have "holds_row (apply_write (Add c v) db1 c) i (py_str v)"
    by (simp add: i_def holds_row_add_new)
  then have hb: "holds_row (before c) i (py_str v)"
    unfolding before_eq by (rule holds_row_history)
  have after_c: "after c = snd (retire v (before c))"
    by (simp add: after_eq)
  have ra: "retired_row (after c) i (py_str v)"
    unfolding after_c using hb by (rule retire_makes_retired_row)
  then have rl: "retired_row (later c) i (py_str v)"
    unfolding later_eq by (rule retired_row_history)
  have inv_after: "seq_inv (after c)" unfolding after_def by (rule seq_inv_reachable)
  have inv_later: "seq_inv (later c)" unfolding later_def by (rule seq_inv_reachable)
  have 1: "\<exists>j. fst (retire v (before c)) = Some j" using hb by (rule retire_hits_holds_row)
  have 2: "get_by_value v (after c) = None" unfolding after_c by (rule get_by_value_retire)
  have 3: "get i (after c) = Some (BlacklistItem i (PStr (py_str v)) True)"
    using inv_after ra by (rule get_retired_row)
  have 4: "get i (later c) = Some (BlacklistItem i (PStr (py_str v)) True)"
    using inv_later rl by (rule get_retired_row)
  from 1 2 3 4 show ?thesis
    unfolding Let_def i_def db1_def before_def after_def later_def by blast
qed

lemma below_last_value: "seq_inv t \<Longrightarrow> r \<in> set (rows t) \<Longrightarrow> row_id r \<le> last_value t"
  by (simp add: seq_inv_def)

lemma index_add: "index (fst (add v t)) = last_value t + 1"
  by (simp add: add_def Let_def)

text \<open>
  Claim C3. Within a category \<open>c\<close>, an index assigned by \<open>add\<close> is smaller than every
  index \<open>add\<close> assigns later, whatever is written in between (retirements of that very
  entry and adds of the same value included), and it is greater than the index of every
  row the table holds, retired or not.
\<close>

theorem add_index_strictly_increasing:
  "let db1 = history ws1 empty_blacklists;
       first = fst (add u (db1 c));
       second = fst (add v (history (ws1 @ Add c u # ws2) empty_blacklists c))
   in index first < index second \<and> (\<forall>r\<in>set (rows (db1 c)). row_id r < index first)"
proof -
  define db1 where "db1 = history ws1 empty_blacklists"
  have "last_value (apply_write (Add c u) db1 c) \<le>
        last_value (history ws2 (apply_write (Add c u) db1) c)"
    by (rule last_value_history)
  then have "last_value (db1 c) + 1 \<le> last_value (history (ws1 @ Add c u # ws2) empty_blacklists c)"
    by (simp add: db1_def history_append history_Cons last_value_add)
  then have 1: "index (fst (add u (db1 c)))
      < index (fst (add v (history (ws1 @ Add c u # ws2) empty_blacklists c)))"
    by (simp add: index_add)
  have "seq_inv (db1 c)" unfolding db1_def by (rule seq_inv_reachable)
  then have 2: "\<forall>r\<in>set (rows (db1 c)). row_id r < index (fst (add u (db1 c)))"
    using below_last_value [of "db1 c"] by (fastforce simp: index_add)
  from 1 2 show ?thesis unfolding Let_def db1_def by blast
qed

text \<open>
  An instance: \<open>a.example\<close> is added (index 1) and retired; adding it again gives index
  2, and the next add gives 3.
\<close>

theorem add_index_strictly_increasing_witness:
  "let ws1 = [Add Domain (PStr ''a.example''), Retire Domain (PStr ''a.example'')];
       db1 = history ws1 empty_blacklists;
       first = fst (add (PStr ''a.example'') (db1 Domain));
       second = fst (add (PStr ''b.example'')
                  (history (ws1 @ Add Domain (PStr ''a.example'') # []) empty_blacklists Domain))
   in map row_id (rows (db1 Domain)) = [1] \<and> map row_retired (rows (db1 Domain)) = [True] \<and>
      index first = 2 \<and> index second = 3 \<and>
      index first < index second \<and> (\<forall>r\<in>set (rows (db1 Domain)). row_id r < index first)"
  using add_index_strictly_increasing
    [of "[Add Domain (PStr ''a.example''), Retire Domain (PStr ''a.example'')]"
        "PStr ''a.example''" Domain "PStr ''b.example''" "[]"]
  by (simp add: history_def empty_blacklists_def empty_table_def add_def retire_def Let_def)

lemma find_append_new:
  "\<forall>r\<in>set xs. \<not> P r \<Longrightarrow> P x \<Longrightarrow> find P (xs @ [x]) = Some x"
  by (induction xs) simp_all

lemma find_append_some: "find P (xs @ [x]) \<noteq> None" if "P x"
  using that by (auto simp: find_None_iff)

text \<open>
  Claim C10. \<open>add\<close>, \<open>get_by_value\<close> and \<open>retire\<close> coerce their argument with
  \<open>str(item)\<close>. For every value \<open>v\<close> and table: the row \<open>add\<close> stores holds the string
  \<open>str(v)\<close>, and the table is the same as after adding that string. After \<open>add\<close> of \<open>v\<close>,
  \<open>retire\<close> by the string \<open>str(v)\<close> succeeds and retires the very row \<open>add\<close> stored, and
  does the same as \<open>retire\<close> by \<open>v\<close>; \<open>get_by_value\<close> answers the same by \<open>v\<close> and by
  \<open>str(v)\<close>; and when no earlier row holds that text, \<open>get_by_value\<close> by the string
  returns the new entry, with the stored string as its value, \<open>retire\<close> returns its
  index, and the lookup is absent afterwards. On any table the two lookups and the two
  retirements coincide; the number 42 is stored and matched as the text \<open>42\<close>.
\<close>

theorem store_coerces_to_string:
  "(let t1 = snd (add v t);
        i = last_value t + 1;
        s = PStr (py_str v)
    in rows t1 = rows t @ [\<lparr>row_id = i, row_item = py_str v, row_retired = False\<rparr>]
       \<and> t1 = snd (add s t)
       \<and> (\<exists>j. fst (retire s t1) = Some j)
       \<and> retire v t1 = retire s t1
       \<and> rows (snd (retire s t1)) =
            rows (snd (retire s t)) @ [\<lparr>row_id = i, row_item = py_str v, row_retired = True\<rparr>]
       \<and> get_by_value v t1 = get_by_value s t1
       \<and> ((\<forall>r\<in>set (rows t). row_item r \<noteq> py_str v) \<longrightarrow>
            get_by_value s t1 = Some (BlacklistItem i s False)
            \<and> fst (retire s t1) = Some i
            \<and> get_by_value s (snd (retire s t1)) = None))
   \<and> get_by_value v t = get_by_value (PStr (py_str v)) t
   \<and> retire v t = retire (PStr (py_str v)) t
   \<and> py_str (PInt 42) = ''42'' \<and> py_str (PStr ''42'') = ''42''
   \<and> py_str (PInt (- 1001)) = ''-1001''"
proof -
  let ?row = "\<lparr>row_id = last_value t + 1, row_item = py_str v, row_retired = False\<rparr>"
  let ?P = "\<lambda>r. row_item r = py_str v"
  have fresh: "(\<forall>r\<in>set (rows t). row_item r \<noteq> py_str v) \<Longrightarrow>
      find ?P (rows t @ [?row]) = Some ?row"
    by (rule find_append_new) simp_all
  have some: "find ?P (rows t @ [?row]) \<noteq> None"
    by (rule find_append_some) simp
  have retired_after: "find ?P (map (\<lambda>r. if row_item r = py_str v then r\<lparr>row_retired := True\<rparr> else r) xs)
      = map_option (\<lambda>r. r\<lparr>row_retired := True\<rparr>) (find ?P xs)" for xs
    by (induction xs) simp_all
  show ?thesis
    using fresh some
    by (auto simp: add_def get_by_value_def retire_def fetchrow_def Let_def str_int_def
        str_nat.simps retired_after split: option.splits)
qed

text \<open>An instance: the number 42 is added, then found and retired by the string \<open>42\<close>.\<close>

theorem store_coerces_to_string_witness:
  "rows empty_table = [] \<and>
   rows (snd (add (PInt 42) empty_table)) = [\<lparr>row_id = 1, row_item = ''42'', row_retired = False\<rparr>] \<and>
   get_by_value (PStr ''42'') (snd (add (PInt 42) empty_table))
     = Some (BlacklistItem 1 (PStr ''42'') False) \<and>
   fst (retire (PStr ''42'') (snd (add (PInt 42) empty_table))) = Some 1 \<and>
   rows (snd (retire (PStr ''42'') (snd (add (PInt 42) empty_table))))
     = [\<lparr>row_id = 1, row_item = ''42'', row_retired = True\<rparr>]"
  using store_coerces_to_string [of "PInt 42" empty_table]
  by (simp add: Let_def empty_table_def str_int_def str_nat.simps retire_def fetchrow_def add_def)


section \<open>Properties of the enforcement handler\<close>


lemma ban_calls_simps:
  "ban_calls [] = []"
  "ban_calls (LogError # es) = ban_calls es"
  "ban_calls (BanCall c u # es) = (c, u) # ban_calls es"
  "ban_calls (DeleteEvent # es) = ban_calls es"
  "ban_calls (Respond n u r d # es) = ban_calls es"
  "ban_calls (xs @ ys) = ban_calls xs @ ban_calls ys"
  by (simp_all add: ban_calls_def)

lemma deleted_simps:
  "deleted [] = False"
  "deleted (LogError # es) = deleted es"
  "deleted (BanCall c u # es) = deleted es"
  "deleted (DeleteEvent # es) = True"
  "deleted (Respond n u r d # es) = deleted es"
  "deleted (xs @ ys) = (deleted xs \<or> deleted ys)"
  by (auto simp: deleted_def)

lemma notify_no_ban: "ban_calls (fst (notify p user u r)) = []"
  by (simp add: notify_def ban_calls_simps split: entity_result.splits)

lemma notify_no_delete: "\<not> deleted (fst (notify p user u r))"
  by (simp add: notify_def deleted_simps split: entity_result.splits)

lemma enforce_ban_calls:
  "ban_calls (fst (enforce p e silent u)) = (if reaches_ban p e u then [(chat_id e, u)] else [])"
  by (auto simp: enforce_def reaches_ban_def Let_def ban_calls_simps notify_no_ban
           split: option.splits ban_result.splits)

lemma enforce_deleted:
  "deleted (fst (enforce p e silent u)) \<longleftrightarrow>
     reaches_ban p e u \<and> ban p (chat_id e) u = BanReturned"
  by (auto simp: enforce_def reaches_ban_def Let_def deleted_simps notify_no_delete
           split: option.splits ban_result.splits)

lemma enforce_ban_invalid:
  "reaches_ban p e u \<Longrightarrow> ban p (chat_id e) u = BanUserIdInvalid \<Longrightarrow>
   enforce p e silent u =
     ((if get_entity p u = EntityValueError then [LogError] else [])
        @ [BanCall (chat_id e) u, LogError], BanFailed)"
  by (auto simp: enforce_def reaches_ban_def Let_def split: option.splits)

lemma enforce_ban_raised:
  "reaches_ban p e u \<Longrightarrow> ban p (chat_id e) u = BanRaised \<Longrightarrow>
   enforce p e silent u =
     ((if get_entity p u = EntityValueError then [LogError] else [])
        @ [BanCall (chat_id e) u], Raised PlatformError)"
  by (auto simp: enforce_def reaches_ban_def Let_def split: option.splits)

lemma grenzschutz_past_checks:
  assumes "\<not> is_private e" and "event_shape (kind e) = None"
    and "check_authority (chat e) = None"
    and "tags e ''grenzschutz'' \<noteq> Some (PStr ''exclude'')"
    and "tags e ''polizei'' \<noteq> Some (PStr ''exclude'')"
  shows "grenzschutz p e =
     (case subject (kind e) of
        Inl out \<Rightarrow> ([], out)
      | Inr u \<Rightarrow> enforce p e (tags e ''grenzschutz'' = Some (PStr ''silent'')) u)"
  using assms by (simp add: grenzschutz_def Let_def)

text \<open>
  Claim C1, as the code has it. For an event that passes the private-chat, event-shape,
  authority and opt-out checks and has a subject: \<open>client.ban\<close> is called exactly once, for
  the chat and the subject, when the subject is in the ban registry and not among the
  chat's admins and the calls before the ban returned (\<open>get_entity\<close> returned or raised
  \<open>ValueError\<close>, the registry query and the fetch of the admins returned); it is not
  called otherwise. \<open>event.delete()\<close> is called for the triggering message exactly when
  that one call of \<open>client.ban\<close> returned. When it raised \<open>UserIdInvalidError\<close>, the error is
  logged and the handler stops there; when it raised anything else, the handler is left
  at the call. In both cases nothing is deleted and no notification is sent. An event
  without a subject has no effect.
\<close>

theorem grenzschutz_bans_banned_non_admins:
  assumes "\<not> is_private e" and "event_shape (kind e) = None"
    and "check_authority (chat e) = None"
    and "tags e ''grenzschutz'' \<noteq> Some (PStr ''exclude'')"
    and "tags e ''polizei'' \<noteq> Some (PStr ''exclude'')"
  shows "case subject (kind e) of
           Inl out \<Rightarrow> grenzschutz p e = ([], out)
         | Inr u \<Rightarrow>
             (let called =
                    (get_entity p u \<noteq> EntityRaised \<and> lookup_returns p \<and>
                     get_user u (banlist_of p) \<noteq> None \<and>
                     (case get_participants p (chat_id e) of
                        None \<Rightarrow> False
                      | Some admins \<Rightarrow> u \<notin> set admins));
                  log1 = (if get_entity p u = EntityValueError then [LogError] else [])
              in ban_calls (fst (grenzschutz p e)) = (if called then [(chat_id e, u)] else [])
               \<and> deleted (fst (grenzschutz p e)) = (called \<and> ban p (chat_id e) u = BanReturned)
               \<and> (called \<and> ban p (chat_id e) u = BanUserIdInvalid \<longrightarrow>
                    grenzschutz p e = (log1 @ [BanCall (chat_id e) u, LogError], BanFailed))
               \<and> (called \<and> ban p (chat_id e) u = BanRaised \<longrightarrow>
                    grenzschutz p e = (log1 @ [BanCall (chat_id e) u], Raised PlatformError)))"
proof (cases "subject (kind e)")
  case (Inl out)
  then show ?thesis using grenzschutz_past_checks [OF assms, of p] by simp
next
  case (Inr u)
  let ?silent = "tags e ''grenzschutz'' = Some (PStr ''silent'')"
  have g: "grenzschutz p e = enforce p e ?silent u"
    using Inr grenzschutz_past_checks [OF assms, of p] by simp
  have called: "reaches_ban p e u =
      (get_entity p u \<noteq> EntityRaised \<and> lookup_returns p \<and>
       get_user u (banlist_of p) \<noteq> None \<and>
       (case get_participants p (chat_id e) of None \<Rightarrow> False | Some admins \<Rightarrow> u \<notin> set admins))"
    by (simp add: reaches_ban_def)
  show ?thesis
    unfolding Inr sum.case Let_def g called [symmetric]
    using enforce_ban_calls [of p e ?silent u] enforce_deleted [of p e ?silent u]
      enforce_ban_invalid [of p e u ?silent] enforce_ban_raised [of p e u ?silent]
    by blast
qed


text \<open>
  Where the claim as stated fails: user 7 is in the registry and is not an admin, the
  checks pass, and \<open>client.ban\<close> raises \<open>UserIdInvalidError\<close>. The handler logs the error
  and returns at line 86: the ban was called once, \<open>event.delete()\<close> is never called.
\<close>

theorem grenzschutz_ban_failed_counterexample:
  "let e = \<lparr>is_private = False, kind = NewMessage (Some 7), chat_id = 1,
            chat = \<lparr>creator = True, admin_rights = None\<rparr>, tags = Map.empty\<rparr>;
       p = \<lparr>get_entity = (\<lambda>u. EntityFound \<lparr>first_name = ''x''\<rparr>),
            banlist_of = [7 \<mapsto> \<lparr>ban_reason = ''spam'', ban_date = 0, ban_message = None\<rparr>],
            lookup_returns = True, get_participants = (\<lambda>c. Some [3]), ban = (\<lambda>c u. BanUserIdInvalid),
            delete_returns = True, respond_returns = True\<rparr>
   in \<not> is_private e \<and> event_shape (kind e) = None \<and> check_authority (chat e) = None \<and>
      tags e ''grenzschutz'' \<noteq> Some (PStr ''exclude'') \<and>
      tags e ''polizei'' \<noteq> Some (PStr ''exclude'') \<and>
      subject (kind e) = Inr 7 \<and>
      get_user 7 (banlist_of p) = Some (BannedUser 7 ''spam'') \<and>
      get_participants p (chat_id e) = Some [3] \<and>
      grenzschutz p e = ([BanCall 1 7, LogError], BanFailed) \<and>
      ban_calls (fst (grenzschutz p e)) = [(1, 7)] \<and>
      \<not> deleted (fst (grenzschutz p e))"
  by (simp add: Let_def grenzschutz_def event_shape_def check_authority_def subject_def
      enforce_def get_user_def deleted_def ban_calls_def)

text \<open>An event that satisfies the hypotheses: user 7 is banned once and the message deleted.\<close>

theorem grenzschutz_bans_banned_non_admins_witness:
  "let e = \<lparr>is_private = False, kind = NewMessage (Some 7), chat_id = 1,
            chat = \<lparr>creator = True, admin_rights = None\<rparr>, tags = Map.empty\<rparr>;
       p = \<lparr>get_entity = (\<lambda>u. EntityFound \<lparr>first_name = ''x''\<rparr>),
            banlist_of = [7 \<mapsto> \<lparr>ban_reason = ''spam'', ban_date = 0, ban_message = None\<rparr>],
            lookup_returns = True, get_participants = (\<lambda>c. Some [3]), ban = (\<lambda>c u. BanReturned),
            delete_returns = True, respond_returns = True\<rparr>
   in \<not> is_private e \<and> event_shape (kind e) = None \<and> check_authority (chat e) = None \<and>
      tags e ''grenzschutz'' \<noteq> Some (PStr ''exclude'') \<and>
      tags e ''polizei'' \<noteq> Some (PStr ''exclude'') \<and>
      subject (kind e) = Inr 7 \<and>
      ban_calls (fst (grenzschutz p e)) = [(1, 7)] \<and> deleted (fst (grenzschutz p e)) \<and>
      grenzschutz p e = ([BanCall 1 7, DeleteEvent, Respond ''x'' 7 ''spam'' 120], Banned)"
  using grenzschutz_bans_banned_non_admins
    [of "\<lparr>is_private = False, kind = NewMessage (Some 7), chat_id = 1,
            chat = \<lparr>creator = True, admin_rights = None\<rparr>, tags = Map.empty\<rparr>"
        "\<lparr>get_entity = (\<lambda>u. EntityFound \<lparr>first_name = ''x''\<rparr>),
            banlist_of = [7 \<mapsto> \<lparr>ban_reason = ''spam'', ban_date = 0, ban_message = None\<rparr>],
            lookup_returns = True, get_participants = (\<lambda>c. Some [3]), ban = (\<lambda>c u. BanReturned),
            delete_returns = True, respond_returns = True\<rparr>"]
  by (simp add: Let_def grenzschutz_def event_shape_def check_authority_def subject_def
      get_user_def enforce_def notify_def)

text \<open>
  Claim C7, as the code has it. An event that reaches the authority check goes past it
  exactly when the chat carries admin rights that include \<open>ban_users\<close>, or carries no
  admin rights and the account is the creator; an event stopped there has no effect at
  all, so no ban is attempted.
\<close>

theorem authority_check:
  assumes "\<not> is_private e" and "event_shape (kind e) = None"
  shows "(snd (grenzschutz p e) \<notin> {IgnoredNoAuthority, IgnoredNoBanRight}) =
           (case admin_rights (chat e) of None \<Rightarrow> creator (chat e) | Some r \<Rightarrow> ban_users r)
         \<and> (snd (grenzschutz p e) \<in> {IgnoredNoAuthority, IgnoredNoBanRight}
              \<longrightarrow> fst (grenzschutz p e) = [])"
proof -
  have enforce_out: "snd (enforce p e silent u) \<notin> {IgnoredNoAuthority, IgnoredNoBanRight}"
    for silent u
    by (simp add: enforce_def notify_def Let_def
             split: option.splits ban_result.splits entity_result.splits)
  have subject_out: "subject (kind e) = Inl out \<Longrightarrow> out \<notin> {IgnoredNoAuthority, IgnoredNoBanRight}"
    for out
    by (auto simp: subject_def split: event_kind.splits option.splits)
  show ?thesis
  proof (cases "check_authority (chat e)")
    case (Some out)
    then have "grenzschutz p e = ([], out)" using assms by (simp add: grenzschutz_def)
    moreover from Some have "out \<in> {IgnoredNoAuthority, IgnoredNoBanRight}"
      by (auto simp: check_authority_def split: if_splits option.splits)
    moreover from Some have
      "\<not> (case admin_rights (chat e) of None \<Rightarrow> creator (chat e) | Some r \<Rightarrow> ban_users r)"
      by (auto simp: check_authority_def split: if_splits option.splits)
    ultimately show ?thesis by simp
  next
    case None
    then have auth: "case admin_rights (chat e) of None \<Rightarrow> creator (chat e) | Some r \<Rightarrow> ban_users r"
      by (auto simp: check_authority_def split: if_splits option.splits)
    have "snd (grenzschutz p e) \<notin> {IgnoredNoAuthority, IgnoredNoBanRight}"
      using assms None enforce_out subject_out
      by (auto simp: grenzschutz_def Let_def split: sum.splits)
    with auth show ?thesis by simp
  qed
qed

text \<open>
  Where the claim as stated fails: the account is the chat's creator and its admin rights
  do not include \<open>ban_users\<close>. Line 52 returns, although the subject is banned and is no
  admin.
\<close>

theorem authority_check_counterexample:
  "let e = \<lparr>is_private = False, kind = NewMessage (Some 7), chat_id = 1,
            chat = \<lparr>creator = True, admin_rights = Some \<lparr>ban_users = False\<rparr>\<rparr>, tags = Map.empty\<rparr>;
       p = \<lparr>get_entity = (\<lambda>u. EntityFound \<lparr>first_name = ''x''\<rparr>),
            banlist_of = [7 \<mapsto> \<lparr>ban_reason = ''spam'', ban_date = 0, ban_message = None\<rparr>],
            lookup_returns = True, get_participants = (\<lambda>c. Some [3]), ban = (\<lambda>c u. BanReturned),
            delete_returns = True, respond_returns = True\<rparr>
   in creator (chat e) \<and> grenzschutz p e = ([], IgnoredNoBanRight)"
  by (simp add: Let_def grenzschutz_def event_shape_def check_authority_def)

text \<open>An event that satisfies the hypotheses: rights with \<open>ban_users\<close>, no creator.\<close>

theorem authority_check_witness:
  "let e = \<lparr>is_private = False, kind = NewMessage (Some 7), chat_id = 1,
            chat = \<lparr>creator = False, admin_rights = Some \<lparr>ban_users = True\<rparr>\<rparr>, tags = Map.empty\<rparr>;
       p = \<lparr>get_entity = (\<lambda>u. EntityFound \<lparr>first_name = ''x''\<rparr>),
            banlist_of = [7 \<mapsto> \<lparr>ban_reason = ''spam'', ban_date = 0, ban_message = None\<rparr>],
            lookup_returns = True, get_participants = (\<lambda>c. Some [3]), ban = (\<lambda>c u. BanReturned),
            delete_returns = True, respond_returns = True\<rparr>
   in \<not> is_private e \<and> event_shape (kind e) = None \<and>
      snd (grenzschutz p e) \<notin> {IgnoredNoAuthority, IgnoredNoBanRight} \<and>
      snd (grenzschutz p e) = Banned"
  using authority_check
    [of "\<lparr>is_private = False, kind = NewMessage (Some 7), chat_id = 1,
            chat = \<lparr>creator = False, admin_rights = Some \<lparr>ban_users = True\<rparr>\<rparr>, tags = Map.empty\<rparr>"
        "\<lparr>get_entity = (\<lambda>u. EntityFound \<lparr>first_name = ''x''\<rparr>),
            banlist_of = [7 \<mapsto> \<lparr>ban_reason = ''spam'', ban_date = 0, ban_message = None\<rparr>],
            lookup_returns = True, get_participants = (\<lambda>c. Some [3]), ban = (\<lambda>c u. BanReturned),
            delete_returns = True, respond_returns = True\<rparr>"]
  by (simp add: Let_def grenzschutz_def event_shape_def check_authority_def subject_def
      enforce_def notify_def get_user_def)


section \<open>Properties of the denylist commands\<close>



text \<open>
  Claim C9, at an input where the code does otherwise. \<open>add\<close> is called with the type
  \<open>file\<close> and no items, in reply to a message with a file. On the empty denylist the
  command raises \<open>UnboundLocalError\<close> (line 129 reads \<open>item\<close>, which the empty loop never
  bound) and no entry is created; on a denylist that holds an active entry with the file's
  hash it raises as well, and nothing is reported as existing.
\<close>

theorem add_file_reply_raises:
  "let env = \<lparr>resolve_invite_link = (\<lambda>s. None), get_entity_id = (\<lambda>s. None),
              resolve_url = (\<lambda>v. py_str v), TELEGRAM_DOMAINS = [], hash_file = (\<lambda>b. ''cf83e1''),
              hash_photo = (\<lambda>b. b), lower_otherwise = (\<lambda>s. s)\<rparr>;
       msg = \<lparr>is_reply = True, reply_ext = None, reply_csv = Inr [], reply_file = Some ''abc'',
              reply_photo = None\<rparr>;
       db1 = history [Add File (PStr ''cf83e1'')] empty_blacklists
   in fst (add_cmd env msg [PStr ''file''] empty_blacklists) = Inl UnboundLocalError
      \<and> rows (snd (add_cmd env msg [PStr ''file''] empty_blacklists) File) = []
      \<and> get_by_value (PStr (hash_file env ''abc'')) (db1 File)
          = Some (BlacklistItem 1 (PStr ''cf83e1'') False)
      \<and> fst (add_cmd env msg [PStr ''file''] db1) = Inl UnboundLocalError"
  by (simp add: Let_def add_cmd_def autobahn_type_def AUTOBAHN_TYPES_def add_file_def
      empty_blacklists_def empty_table_def history_def add_def get_by_value_def fetchrow_def)


section \<open>Properties of the import\<close>


lemma to_records_ValueError:
  "\<exists>u\<in>set bans. py_int rt (dict_id u) = None \<Longrightarrow> to_records rt k bans = Inl ValueError"
proof (induction bans arbitrary: k)
  case Nil
  then show ?case by simp
next
  case (Cons u us)
  show ?case
  proof (cases "py_int rt (dict_id u)")
    case None
    then show ?thesis by simp
  next
    case (Some i)
    with Cons.prems have "\<exists>u\<in>set us. py_int rt (dict_id u) = None" by auto
    then have "to_records rt (Suc k) us = Inl ValueError" by (rule Cons.IH)
    with Some show ?thesis by simp
  qed
qed














lemmas py_int_eval = py_int_def is_ascii_def ascii_int_def strip_def is_space_def py_nat_def
  digit_of_def








lemma pushes_ok_Nil: "pushes_ok s [] None"
  by (simp add: pushes_ok_def)

lemma pushes_ok_append:
  "pushes_ok s new1 None \<Longrightarrow> pushes_ok s new2 err \<Longrightarrow> pushes_ok s (new1 @ new2) err"
  by (cases err) (auto simp: pushes_ok_def butlast_append dest: in_set_butlastD)

lemma to_bans_parsed:
  "\<forall>u\<in>set uids. py_int rt u \<noteq> None \<Longrightarrow> to_bans rt r a uids = Inr (map (mk_ban rt r a) uids)"
  by (induction uids) (auto simp: mk_ban_def)

lemma push_uids_spec:
  "\<forall>u\<in>set uids. py_int rt u \<noteq> None \<Longrightarrow>
   \<exists>new. snd (push_uids rt s a r uids calls) = calls @ new
       \<and> pushes_ok s new (fst (push_uids rt s a r uids calls))
       \<and> (\<forall>ch\<in>set new. chunk_ok a ch)
       \<and> (fst (push_uids rt s a r uids calls) = None \<longrightarrow> concat new = map (mk_ban rt r a) uids)"
proof (induction rt s a r uids calls rule: push_uids.induct)
  case (1 rt s a r uids calls)
  show ?case
  proof (cases "uids = []")
    case True
    then show ?thesis by (simp add: push_uids.simps pushes_ok_Nil)
  next
    case False
    let ?chunk = "map (mk_ban rt r a) (take SWAPI_SLICE_LENGTH uids)"
    have parsed_take: "\<forall>u\<in>set (take SWAPI_SLICE_LENGTH uids). py_int rt u \<noteq> None"
      using "1.prems" by (auto dest: in_set_takeD)
    have parsed_drop: "\<forall>u\<in>set (drop SWAPI_SLICE_LENGTH uids). py_int rt u \<noteq> None"
      using "1.prems" by (auto dest: in_set_dropD)
    have tb: "to_bans rt r a (take SWAPI_SLICE_LENGTH uids) = Inr ?chunk"
      using parsed_take by (rule to_bans_parsed)
    have ck: "chunk_ok a ?chunk"
      using False by (auto simp: chunk_ok_def SWAPI_SLICE_LENGTH_def mk_ban_def)
    show ?thesis
    proof (cases "add_bans s ?chunk")
      case ok: True
      have step: "push_uids rt s a r uids calls =
                  push_uids rt s a r (drop SWAPI_SLICE_LENGTH uids) (calls @ [?chunk])"
        using False tb ok by (subst push_uids.simps) simp
      from "1.IH" [OF False tb ok parsed_drop] obtain new where
        all: "snd (push_uids rt s a r (drop SWAPI_SLICE_LENGTH uids) (calls @ [?chunk]))
                = (calls @ [?chunk]) @ new
          \<and> pushes_ok s new (fst (push_uids rt s a r (drop SWAPI_SLICE_LENGTH uids) (calls @ [?chunk])))
          \<and> (\<forall>ch\<in>set new. chunk_ok a ch)
          \<and> (fst (push_uids rt s a r (drop SWAPI_SLICE_LENGTH uids) (calls @ [?chunk])) = None
             \<longrightarrow> concat new = map (mk_ban rt r a) (drop SWAPI_SLICE_LENGTH uids))"
        by (rule exE)
      note new = all [THEN conjunct1] all [THEN conjunct2, THEN conjunct1]
        all [THEN conjunct2, THEN conjunct2, THEN conjunct1]
        all [THEN conjunct2, THEN conjunct2, THEN conjunct2]
      have one: "pushes_ok s [?chunk] None" using ok by (simp add: pushes_ok_def)
      have A: "pushes_ok s ([?chunk] @ new) (fst (push_uids rt s a r uids calls))"
        unfolding step using one new(2) by (rule pushes_ok_append)
      have B: "snd (push_uids rt s a r uids calls) = calls @ ([?chunk] @ new)"
        unfolding step using new(1) by simp
      have C: "\<forall>ch\<in>set ([?chunk] @ new). chunk_ok a ch" using ck new(3) by simp
      have D: "fst (push_uids rt s a r uids calls) = None
           \<longrightarrow> concat ([?chunk] @ new) = map (mk_ban rt r a) uids"
      proof
        assume "fst (push_uids rt s a r uids calls) = None"
        with new(4) have "concat new = map (mk_ban rt r a) (drop SWAPI_SLICE_LENGTH uids)"
          unfolding step by simp
        then have "concat ([?chunk] @ new)
            = map (mk_ban rt r a) (take SWAPI_SLICE_LENGTH uids @ drop SWAPI_SLICE_LENGTH uids)"
          by (simp del: append_take_drop_id)
        then show "concat ([?chunk] @ new) = map (mk_ban rt r a) uids"
          by (simp only: append_take_drop_id)
      qed
      show ?thesis by (rule exI [of _ "[?chunk] @ new"]) (intro conjI A B C D)
    next
      case bad: False
      have step: "push_uids rt s a r uids calls = (Some AuthorityError, calls @ [?chunk])"
        using False tb bad by (subst push_uids.simps) simp
      have A: "pushes_ok s [?chunk] (fst (push_uids rt s a r uids calls))"
        unfolding step using bad by (simp add: pushes_ok_def)
      have B: "snd (push_uids rt s a r uids calls) = calls @ [?chunk]"
        unfolding step by simp
      have C: "\<forall>ch\<in>set [?chunk]. chunk_ok a ch" using ck by simp
      have D: "fst (push_uids rt s a r uids calls) = None
           \<longrightarrow> concat [?chunk] = map (mk_ban rt r a) uids"
        unfolding step by simp
      show ?thesis by (rule exI [of _ "[?chunk]"]) (intro conjI A B C D)
    qed
  qed
qed

lemma push_all_spec:
  "\<forall>p\<in>set d. \<forall>u\<in>set (snd p). py_int rt u \<noteq> None \<Longrightarrow>
   \<exists>new. snd (push_all rt s a d calls) = calls @ new
       \<and> pushes_ok s new (fst (push_all rt s a d calls))
       \<and> (\<forall>ch\<in>set new. chunk_ok a ch)
       \<and> (fst (push_all rt s a d calls) = None \<longrightarrow>
            concat new = concat (map (\<lambda>p. map (mk_ban rt (fst p) a) (snd p)) d))"
proof (induction d arbitrary: calls)
  case Nil
  then show ?case by (simp add: pushes_ok_Nil)
next
  case (Cons p d)
  obtain r uids where p: "p = (r, uids)" by (cases p)
  from Cons.prems have parsed: "\<forall>u\<in>set uids. py_int rt u \<noteq> None"
    and rest: "\<forall>p\<in>set d. \<forall>u\<in>set (snd p). py_int rt u \<noteq> None"
    by (auto simp: p)
  from push_uids_spec [OF parsed, of s a r calls] obtain new1 where
    all1: "snd (push_uids rt s a r uids calls) = calls @ new1
       \<and> pushes_ok s new1 (fst (push_uids rt s a r uids calls))
       \<and> (\<forall>ch\<in>set new1. chunk_ok a ch)
       \<and> (fst (push_uids rt s a r uids calls) = None \<longrightarrow> concat new1 = map (mk_ban rt r a) uids)"
    by (rule exE)
  note n1 = all1 [THEN conjunct1] all1 [THEN conjunct2, THEN conjunct1]
    all1 [THEN conjunct2, THEN conjunct2, THEN conjunct1]
    all1 [THEN conjunct2, THEN conjunct2, THEN conjunct2]
  show ?case
  proof (cases "fst (push_uids rt s a r uids calls)")
    case (Some e)
    then have step: "push_all rt s a (p # d) calls = (Some e, calls @ new1)"
      using n1(1) by (cases "push_uids rt s a r uids calls") (simp add: p)
    have A: "pushes_ok s new1 (fst (push_all rt s a (p # d) calls))"
      unfolding step using n1(2) Some by simp
    have B: "snd (push_all rt s a (p # d) calls) = calls @ new1" unfolding step by simp
    have D: "fst (push_all rt s a (p # d) calls) = None \<longrightarrow>
        concat new1 = concat (map (\<lambda>p. map (mk_ban rt (fst p) a) (snd p)) (p # d))"
      unfolding step by simp
    show ?thesis by (rule exI [of _ new1]) (intro conjI A B n1(3) D)
  next
    case None
    then have step: "push_all rt s a (p # d) calls = push_all rt s a d (calls @ new1)"
      using n1(1) by (cases "push_uids rt s a r uids calls") (simp add: p)
    from Cons.IH [OF rest, of "calls @ new1"] obtain new2 where
      all2: "snd (push_all rt s a d (calls @ new1)) = (calls @ new1) @ new2
         \<and> pushes_ok s new2 (fst (push_all rt s a d (calls @ new1)))
         \<and> (\<forall>ch\<in>set new2. chunk_ok a ch)
         \<and> (fst (push_all rt s a d (calls @ new1)) = None \<longrightarrow>
              concat new2 = concat (map (\<lambda>p. map (mk_ban rt (fst p) a) (snd p)) d))"
      by (rule exE)
    note n2 = all2 [THEN conjunct1] all2 [THEN conjunct2, THEN conjunct1]
      all2 [THEN conjunct2, THEN conjunct2, THEN conjunct1]
      all2 [THEN conjunct2, THEN conjunct2, THEN conjunct2]
    have ok1: "pushes_ok s new1 None" using n1(2) None by simp
    have A: "pushes_ok s (new1 @ new2) (fst (push_all rt s a (p # d) calls))"
      unfolding step using ok1 n2(2) by (rule pushes_ok_append)
    have B: "snd (push_all rt s a (p # d) calls) = calls @ (new1 @ new2)"
      unfolding step using n2(1) by simp
    have C: "\<forall>ch\<in>set (new1 @ new2). chunk_ok a ch" using n1(3) n2(3) by auto
    have D: "fst (push_all rt s a (p # d) calls) = None \<longrightarrow>
        concat (new1 @ new2) = concat (map (\<lambda>p. map (mk_ban rt (fst p) a) (snd p)) (p # d))"
      unfolding step using n1(4) n2(4) None by (simp add: p)
    show ?thesis by (rule exI [of _ "new1 @ new2"]) (intro conjI A B C D)
  qed
qed


lemma map_of_dict_set: "map_of (dict_set d k v) = (map_of d)(k \<mapsto> v)"
  by (induction d) (auto simp: fun_eq_iff)

lemma keys_dict_set: "set (map fst (dict_set d k v)) = insert k (set (map fst d))"
  by (induction d) auto

lemma distinct_dict_set: "distinct (map fst d) \<Longrightarrow> distinct (map fst (dict_set d k v))"
proof (induction d)
  case Nil
  then show ?case by simp
next
  case (Cons p d)
  show ?case
  proof (cases "fst p = k")
    case True
    with Cons.prems show ?thesis by simp
  next
    case False
    have "fst p \<notin> set (map fst (dict_set d k v))"
      using Cons.prems False by (simp only: keys_dict_set) auto
    with Cons False show ?thesis by simp
  qed
qed

lemma dict_get_dict_set: "dict_get (dict_set d k v) r = (if r = k then v else dict_get d r)"
  by (simp add: dict_get_def map_of_dict_set)

lemma by_reason_get:
  "dict_get (by_reason bs d) r = dict_get d r @ map dict_id (filter (\<lambda>u. dict_reason u = r) bs)"
  by (induction bs arbitrary: d) (auto simp: dict_get_dict_set)

lemma by_reason_distinct: "distinct (map fst d) \<Longrightarrow> distinct (map fst (by_reason bs d))"
  by (induction bs arbitrary: d) (simp_all add: distinct_dict_set)

lemma dict_get_member:
  "distinct (map fst d) \<Longrightarrow> (r, uids) \<in> set d \<Longrightarrow> dict_get d r = uids"
  by (simp add: dict_get_def)

lemma pushed_for_reason:
  "distinct (map fst d) \<Longrightarrow>
   filter (\<lambda>b. sw_reason b = r) (concat (map (\<lambda>p. map (mk_ban rt (fst p) a) (snd p)) d))
   = map (mk_ban rt r a) (dict_get d r)"
proof (induction d)
  case Nil
  then show ?case by (simp add: dict_get_def)
next
  case (Cons p d)
  obtain r' uids where p: "p = (r', uids)" by (cases p)
  from Cons.prems have dist: "distinct (map fst d)" and fresh: "r' \<notin> fst ` set d"
    by (simp_all add: p)
  have here: "filter (\<lambda>b. sw_reason b = r) (map (mk_ban rt r' a) uids)
                = (if r = r' then map (mk_ban rt r a) uids else [])"
    by (auto simp: filter_map comp_def mk_ban_def)
  have absent: "dict_get d r' = []"
    using fresh by (simp add: dict_get_def map_of_eq_None_iff [THEN iffD2])
  show ?case
    using Cons.IH [OF dist] here absent by (auto simp: p dict_get_def)
qed

lemma to_records_all_parsed:
  "to_records rt k bans = Inr recs \<Longrightarrow> \<forall>u\<in>set bans. py_int rt (dict_id u) \<noteq> None"
proof (rule ccontr)
  assume ok: "to_records rt k bans = Inr recs"
    and "\<not> (\<forall>u\<in>set bans. py_int rt (dict_id u) \<noteq> None)"
  then have "\<exists>u\<in>set bans. py_int rt (dict_id u) = None" by simp
  then have "to_records rt k bans = Inl ValueError" by (rule to_records_ValueError)
  with ok show False by simp
qed

lemma upsert_multiple_all_parsed:
  "upsert_multiple bans rt bl = Inr bl' \<Longrightarrow> \<forall>u\<in>set bans. py_int rt (dict_id u) \<noteq> None"
  using to_records_all_parsed [of rt 0 bans]
  by (auto simp: upsert_multiple_def split: sum.splits if_splits)


text \<open>
  Claim C8, as the code has it. In an import whose batch was upserted, with a ban
  authority configured and the permission \<open>Admin\<close> or \<open>Root\<close>: the registry afterwards is
  the upserted one, whatever the pushes do. The calls made to \<open>add_bans\<close> are appended to
  those made before; each carries between 1 and 50 bans, all with one reason and with the
  importer as admin; every call but the last one returned. If all calls returned, the
  import reports the number of rows, and for every reason the ids pushed with it are, in
  order, the ids of the rows imported with it. Otherwise the call that raised is the last
  call made (no later chunk is pushed) and the import ends with that exception.
\<close>

theorem import_pushes_in_chunks:
  assumes "is_reply msg" and "reply_ext msg = Some ''.csv''"
    and "reply_csv msg = Inr csv_file"
    and "rose_csv_to_dict csv_file = Inr bans" and "bans \<noteq> []"
    and "upsert_multiple bans rt (registry st) = Inr bl"
    and "sw client = Some s" and "permission s = Admin \<or> permission s = Root"
  shows "\<exists>calls.
           snd (import_cmd client msg rt st) = \<lparr>registry = bl, pushed = pushed st @ calls\<rparr>
           \<and> (\<forall>ch\<in>set calls. ch \<noteq> [] \<and> length ch \<le> 50
                  \<and> (\<exists>r. \<forall>b\<in>set ch. sw_reason b = r \<and> sw_admin b = me_id client))
           \<and> (\<forall>ch\<in>set (butlast calls). add_bans s ch)
           \<and> (if \<forall>ch\<in>set calls. add_bans s ch
              then fst (import_cmd client msg rt st) = Inr (ImportResult (length bans))
                 \<and> (\<forall>r. map sw_user_id (filter (\<lambda>b. sw_reason b = r) (concat calls))
                          = map (\<lambda>u. the (py_int rt (dict_id u)))
                              (filter (\<lambda>u. dict_reason u = r) bans))
              else fst (import_cmd client msg rt st) = Inl AuthorityError
                 \<and> calls \<noteq> [] \<and> \<not> add_bans s (last calls))"
proof -
  let ?d = "by_reason bans []"
  let ?a = "me_id client"
  have dist: "distinct (map fst ?d)" by (rule by_reason_distinct) simp
  have get: "dict_get ?d r = map dict_id (filter (\<lambda>u. dict_reason u = r) bans)" for r
  proof -
    have "dict_get [] r = []" by (simp add: dict_get_def)
    then show ?thesis by (simp add: by_reason_get)
  qed
  have parsed: "\<forall>u\<in>set bans. py_int rt (dict_id u) \<noteq> None"
    using assms(6) by (rule upsert_multiple_all_parsed)
  have parsed_d: "\<forall>p\<in>set ?d. \<forall>u\<in>set (snd p). py_int rt u \<noteq> None"
  proof (intro ballI)
    fix p u assume p: "p \<in> set ?d" and u: "u \<in> set (snd p)"
    have "dict_get ?d (fst p) = snd p" using dist p by (intro dict_get_member) simp_all
    then have "snd p = map dict_id (filter (\<lambda>u. dict_reason u = fst p) bans)"
      by (simp add: get)
    with u have "u \<in> set (map dict_id (filter (\<lambda>u. dict_reason u = fst p) bans))" by simp
    then have "u \<in> dict_id ` set bans" by auto
    with parsed show "py_int rt u \<noteq> None" by auto
  qed
  from push_all_spec [OF parsed_d, of s ?a "pushed st"] obtain calls where
    all: "snd (push_all rt s ?a ?d (pushed st)) = pushed st @ calls
       \<and> pushes_ok s calls (fst (push_all rt s ?a ?d (pushed st)))
       \<and> (\<forall>ch\<in>set calls. chunk_ok ?a ch)
       \<and> (fst (push_all rt s ?a ?d (pushed st)) = None \<longrightarrow>
            concat calls = concat (map (\<lambda>p. map (mk_ban rt (fst p) ?a) (snd p)) ?d))"
    by (rule exE)
  note c = all [THEN conjunct1] all [THEN conjunct2, THEN conjunct1]
    all [THEN conjunct2, THEN conjunct2, THEN conjunct1]
    all [THEN conjunct2, THEN conjunct2, THEN conjunct2]
  obtain err log where pa: "push_all rt s ?a ?d (pushed st) = (err, log)"
    by (cases "push_all rt s ?a ?d (pushed st)")
  have log: "log = pushed st @ calls" using c(1) pa by simp
  have imp: "import_cmd client msg rt st =
      ((case err of Some e \<Rightarrow> Inl e | None \<Rightarrow> Inr (ImportResult (length bans))),
       st\<lparr>registry := bl, pushed := log\<rparr>)"
    using assms pa by (auto simp: import_cmd_def split: option.splits)
  have A: "snd (import_cmd client msg rt st) = \<lparr>registry = bl, pushed = pushed st @ calls\<rparr>"
    unfolding imp log by simp
  have B: "\<forall>ch\<in>set calls. ch \<noteq> [] \<and> length ch \<le> 50
              \<and> (\<exists>r. \<forall>b\<in>set ch. sw_reason b = r \<and> sw_admin b = ?a)"
    using c(3) by (simp add: chunk_ok_def)
  have C: "\<forall>ch\<in>set (butlast calls). add_bans s ch"
    using c(2) by (simp add: pushes_ok_def)
  have D: "if \<forall>ch\<in>set calls. add_bans s ch
           then fst (import_cmd client msg rt st) = Inr (ImportResult (length bans))
              \<and> (\<forall>r. map sw_user_id (filter (\<lambda>b. sw_reason b = r) (concat calls))
                       = map (\<lambda>u. the (py_int rt (dict_id u)))
                           (filter (\<lambda>u. dict_reason u = r) bans))
           else fst (import_cmd client msg rt st) = Inl AuthorityError
              \<and> calls \<noteq> [] \<and> \<not> add_bans s (last calls)"
  proof (cases err)
    case None
    then have ok: "\<forall>ch\<in>set calls. add_bans s ch" using c(2) pa by (simp add: pushes_ok_def)
    have cc: "concat calls = concat (map (\<lambda>p. map (mk_ban rt (fst p) ?a) (snd p)) ?d)"
      using c(4) pa None by simp
    have cover: "map sw_user_id (filter (\<lambda>b. sw_reason b = r) (concat calls))
        = map (\<lambda>u. the (py_int rt (dict_id u))) (filter (\<lambda>u. dict_reason u = r) bans)" for r
      unfolding cc pushed_for_reason [OF dist] get by (simp add: comp_def mk_ban_def)
    from ok cover None show ?thesis unfolding imp by simp
  next
    case (Some e)
    then have bad: "e = AuthorityError" "calls \<noteq> []" "\<not> add_bans s (last calls)"
      using c(2) pa by (simp_all add: pushes_ok_def)
    then have "\<not> (\<forall>ch\<in>set calls. add_bans s ch)" using last_in_set by blast
    with bad Some show ?thesis unfolding imp by simp
  qed
  show ?thesis by (rule exI [of _ calls]) (intro conjI A B C D)
qed


lemmas import_eval = import_cmd_def rose_csv_to_dict_def upsert_multiple_def py_int_eval
  copyable_def in_bigint_def upsert_def dict_get_def push_uids.simps SWAPI_SLICE_LENGTH_def

text \<open>
  Where the claim as stated fails: rows \<open>(1, a)\<close> and \<open>(2, b)\<close>, and an authority that
  refuses the bans with reason \<open>a\<close> and would accept those with reason \<open>b\<close>. The first
  push raises; the chunk for \<open>b\<close> is never pushed and the import ends with the
  exception. Both rows are in the registry.
\<close>

theorem import_push_failure_counterexample:
  "let rt = \<lparr>clock = (\<lambda>k. 0), int_otherwise = (\<lambda>s. None)\<rparr>;
       msg = \<lparr>is_reply = True, reply_ext = Some ''.csv'', reply_csv = Inr [[''id'', ''reason''], [''1'', ''a''], [''2'', ''b'']], reply_file = None, reply_photo = None\<rparr>;
       s = \<lparr>permission = Admin, add_bans = (\<lambda>ch. list_all (\<lambda>b. sw_reason b \<noteq> ''a'') ch)\<rparr>;
       after = import_cmd \<lparr>sw = Some s, me_id = 9\<rparr> msg rt \<lparr>registry = Map.empty, pushed = []\<rparr>
   in fst after = Inl AuthorityError \<and>
      pushed (snd after) = [[\<lparr>sw_user_id = 1, sw_reason = ''a'', sw_admin = 9\<rparr>]] \<and>
      \<not> add_bans s [\<lparr>sw_user_id = 1, sw_reason = ''a'', sw_admin = 9\<rparr>] \<and>
      add_bans s [\<lparr>sw_user_id = 2, sw_reason = ''b'', sw_admin = 9\<rparr>] \<and>
      map_option ban_reason (registry (snd after) 1) = Some ''a'' \<and>
      map_option ban_reason (registry (snd after) 2) = Some ''b''"
  by (simp add: Let_def import_eval)

text \<open>An import that satisfies the hypotheses; both pushes return.\<close>

theorem import_pushes_in_chunks_witness:
  "let rt = \<lparr>clock = (\<lambda>k. 0), int_otherwise = (\<lambda>s. None)\<rparr>;
       msg = \<lparr>is_reply = True, reply_ext = Some ''.csv'', reply_csv = Inr [[''id'', ''reason''], [''1'', ''a''], [''2'', ''b'']], reply_file = None, reply_photo = None\<rparr>;
       s = \<lparr>permission = Admin, add_bans = (\<lambda>ch. True)\<rparr>;
       st = \<lparr>registry = Map.empty, pushed = []\<rparr>;
       after = import_cmd \<lparr>sw = Some s, me_id = 9\<rparr> msg rt st
   in is_reply msg \<and> reply_ext msg = Some ''.csv'' \<and>
      reply_csv msg = Inr [[''id'', ''reason''], [''1'', ''a''], [''2'', ''b'']] \<and>
      rose_csv_to_dict [[''id'', ''reason''], [''1'', ''a''], [''2'', ''b'']]
        = Inr [\<lparr>dict_id = ''1'', dict_reason = ''a''\<rparr>, \<lparr>dict_id = ''2'', dict_reason = ''b''\<rparr>] \<and>
      upsert_multiple [\<lparr>dict_id = ''1'', dict_reason = ''a''\<rparr>, \<lparr>dict_id = ''2'', dict_reason = ''b''\<rparr>]
          rt (registry st) = Inr (registry (snd after)) \<and>
      permission s = Admin \<and>
      fst after = Inr (ImportResult 2) \<and>
      pushed (snd after) = [[\<lparr>sw_user_id = 1, sw_reason = ''a'', sw_admin = 9\<rparr>],
                            [\<lparr>sw_user_id = 2, sw_reason = ''b'', sw_admin = 9\<rparr>]]"
  using import_pushes_in_chunks
    [of "\<lparr>is_reply = True, reply_ext = Some ''.csv'', reply_csv = Inr [[''id'', ''reason''], [''1'', ''a''], [''2'', ''b'']], reply_file = None, reply_photo = None\<rparr>"
        "[[''id'', ''reason''], [''1'', ''a''], [''2'', ''b'']]"
        "[\<lparr>dict_id = ''1'', dict_reason = ''a''\<rparr>, \<lparr>dict_id = ''2'', dict_reason = ''b''\<rparr>]"
        "\<lparr>clock = (\<lambda>k. 0), int_otherwise = (\<lambda>s. None)\<rparr>" "\<lparr>registry = Map.empty, pushed = []\<rparr>"
        "registry (snd (import_cmd \<lparr>sw = Some \<lparr>permission = Admin, add_bans = (\<lambda>ch. True)\<rparr>, me_id = 9\<rparr> (\<lparr>is_reply = True, reply_ext = Some ''.csv'', reply_csv = Inr [[''id'', ''reason''], [''1'', ''a''], [''2'', ''b'']], reply_file = None, reply_photo = None\<rparr>) (\<lparr>clock = (\<lambda>k. 0), int_otherwise = (\<lambda>s. None)\<rparr>) (\<lparr>registry = Map.empty, pushed = []\<rparr>)))"
        "\<lparr>sw = Some \<lparr>permission = Admin, add_bans = (\<lambda>ch. True)\<rparr>, me_id = 9\<rparr>" "\<lparr>permission = Admin, add_bans = (\<lambda>ch. True)\<rparr>"]
  by (simp add: Let_def import_eval)


end
